theory Spec2Isabelle
  imports Main "HOL-Library.Sublist"
begin

section \<open>Values, errors and the environment of main.js\<close>

text \<open>
  The program is a Node.js script: it reads configuration from the process environment, talks
  to a primary Vault and to target Vault nodes over HTTP (axios), and prints to the console.
  The embedding makes these effects explicit. Every function returns, next to its result, the
  list of events (console lines and outgoing calls) it produced, in order. What the outside
  world answers is an argument: a record of response functions.
\<close>

subsection \<open>JavaScript values\<close>

text \<open>
  The values the program handles are strings and parsed JSON bodies. Numbers are the
  integer-valued ones (the wire contract gives \<open>t\<close> and \<open>progress\<close> as integers); an object is
  the list of its own properties, each name once, in enumeration order, the order
  \<open>Object.values\<close> follows.
\<close>

datatype jsval =
    Undefined
  | Null
  | Bool bool
  | Num int
  | Str string
  | Arr "jsval list"
  | Obj "(string \<times> jsval) list"

text \<open>Truthiness, as \<open>if (v)\<close>, \<open>!v\<close> and \<open>v || d\<close> test it.\<close>

fun truthy :: "jsval \<Rightarrow> bool" where
  "truthy Undefined = False"
| "truthy Null = False"
| "truthy (Bool b) = b"
| "truthy (Num n) = (n \<noteq> 0)"
| "truthy (Str s) = (s \<noteq> [])"
| "truthy (Arr xs) = True"
| "truthy (Obj kvs) = True"

text \<open>\<open>a || b\<close>.\<close>

definition js_or :: "jsval \<Rightarrow> jsval \<Rightarrow> jsval" where
  "js_or a b = (if truthy a then a else b)"

text \<open>
  A thrown value. Everything this program throws or receives as a rejection is an Error
  object; the handlers read its \<open>message\<close> and, for an axios error that carries an HTTP
  response, \<open>response.status\<close> and \<open>response.data\<close>.
\<close>

record js_error =
  message :: string
  response :: "(int \<times> jsval) option"

definition Error :: "string \<Rightarrow> js_error" where
  "Error msg = \<lparr>message = msg, response = None\<rparr>"

text \<open>
  The TypeError of a property read on \<open>undefined\<close> or \<open>null\<close>, with the text Node 22 gives it.
\<close>

definition TypeError_read :: "jsval \<Rightarrow> string \<Rightarrow> js_error" where
  "TypeError_read v p =
     Error (''Cannot read properties of '' @ (if v = Null then ''null'' else ''undefined'')
            @ '' (reading '' @ [CHR 0x27] @ p @ [CHR 0x27] @ '')'')"

text \<open>
  The property read \<open>v.p\<close>, for the names this program reads (\<open>data\<close>, \<open>auth\<close>,
  \<open>client_token\<close>, \<open>sealed\<close>, \<open>t\<close>, \<open>progress\<close>): none of them is inherited from a prototype, so
  the read is a lookup among an object's own properties and \<open>undefined\<close> on every other
  value, and it throws on \<open>undefined\<close> and \<open>null\<close>.
\<close>

fun get_prop :: "jsval \<Rightarrow> string \<Rightarrow> js_error + jsval" where
  "get_prop Undefined p = Inl (TypeError_read Undefined p)"
| "get_prop Null p = Inl (TypeError_read Null p)"
| "get_prop (Obj kvs) p = Inr (case map_of kvs p of None \<Rightarrow> Undefined | Some v \<Rightarrow> v)"
| "get_prop v p = Inr Undefined"

text \<open>\<open>Object.values(v)\<close> for a value that is neither \<open>undefined\<close> nor \<open>null\<close>.\<close>

fun Object_values :: "jsval \<Rightarrow> jsval list" where
  "Object_values (Obj kvs) = map snd kvs"
| "Object_values (Arr xs) = xs"
| "Object_values (Str s) = map (\<lambda>c. Str [c]) s"
| "Object_values v = []"

text \<open>
  Whether \<open>ToString(v)\<close>, which a template literal applies to an interpolated value, throws.
  An object converts through its \<open>toString\<close>: the inherited one gives a string, while an own
  property of that name, which in a parsed JSON body is never a function, leaves no usable
  conversion and the TypeError \<open>Cannot convert object to primitive value\<close> is thrown. An array
  joins the conversions of its elements. Every other value converts.
\<close>

fun ToString_throws :: "jsval \<Rightarrow> bool" where
  "ToString_throws (Obj kvs) = (map_of kvs ''toString'' \<noteq> None)"
| "ToString_throws (Arr xs) = list_ex ToString_throws xs"
| "ToString_throws v = False"

text \<open>
  An interpolation \<open>${v}\<close>: it throws when the conversion does, and otherwise the console
  line carries the value.
\<close>

definition interpolate :: "jsval \<Rightarrow> js_error + jsval" where
  "interpolate v =
     (if ToString_throws v then Inl (Error ''Cannot convert object to primitive value'')
      else Inr v)"

subsection \<open>Array.prototype.slice(0, end)\<close>

datatype ext_int = Fin int | PosInf | NegInf

fun slice0 :: "'a list \<Rightarrow> ext_int \<Rightarrow> 'a list" where
  "slice0 xs (Fin n) =
     (if n < 0 then take (nat (int (length xs) + n)) xs else take (nat n) xs)"
| "slice0 xs PosInf = xs"
| "slice0 xs NegInf = []"

subsection \<open>Configuration\<close>

text \<open>
  The fields of \<open>config\<close> that the polling logic reads. (\<open>pollIntervalMs\<close> and \<open>insecureTls\<close>
  only set up the timer and the TLS agent.)
\<close>

record config =
  primaryVaultAddr :: string
  jwtTokenPath :: string
  k8sAuthRole :: string
  vaultNamespace :: string
  unsealKeysPath :: string
  targetVaultAddrs :: "string list"

text \<open>\<open>process.env.X || d\<close>: an unset variable is \<open>undefined\<close>, and the empty string is falsy.\<close>

definition env_or :: "string option \<Rightarrow> string \<Rightarrow> string" where
  "env_or v d = (case v of None \<Rightarrow> d | Some s \<Rightarrow> if s = [] then d else s)"

text \<open>\<open>s.split(',')\<close>: the pieces between the commas; the empty string gives one empty piece.\<close>

fun split_comma :: "string \<Rightarrow> string list" where
  "split_comma [] = [] # []"
| "split_comma (c # cs) =
     (if c = CHR '','' then [] # split_comma cs
      else (case split_comma cs of [] \<Rightarrow> [c] # [] | w # ws \<Rightarrow> (c # w) # ws))"

text \<open>\<open>(process.env.TARGET_VAULT_ADDRS || '').split(',').filter(addr => addr)\<close>\<close>

definition parse_targetVaultAddrs :: "string option \<Rightarrow> string list" where
  "parse_targetVaultAddrs v = filter (\<lambda>addr. addr \<noteq> []) (split_comma (env_or v []))"

definition load_config :: "(string \<Rightarrow> string option) \<Rightarrow> config" where
  "load_config getenv =
     \<lparr>primaryVaultAddr =
        env_or (getenv ''PRIMARY_VAULT_ADDR'') ''https://vault.vault.svc.cluster.local:8200'',
      jwtTokenPath = env_or (getenv ''JWT_TOKEN_PATH'') ''/var/run/secrets/vault/token'',
      k8sAuthRole = env_or (getenv ''K8S_AUTH_ROLE'') ''auto-unsealer'',
      vaultNamespace = env_or (getenv ''VAULT_NAMESPACE'') ''vault'',
      unsealKeysPath =
        env_or (getenv ''UNSEAL_KEYS_PATH'') ''kv/data/internal/config/unseal-keys'',
      targetVaultAddrs = parse_targetVaultAddrs (getenv ''TARGET_VAULT_ADDRS'')\<rparr>"

section \<open>Effects\<close>

subsection \<open>Events and the outside world\<close>

text \<open>One constructor for each console statement of main.js, with the values it interpolates.\<close>

datatype line =
    LoginAttempt
  | LoginSuccess
  | LoginError string
  | FetchingKeys
  | FetchedKeys nat
  | FetchError string
  | Checking string
  | IsSealed string
  | Submitting string
  | NowUnsealed string
  | Progress string jsval jsval
  | IsAlreadyUnsealed string
  | ErrorResponse string int jsval
  | ErrorConnecting string string
  | CycleStart
  | NoTargets

text \<open>
  What the program does to the outside, one constructor for each call site: \<open>console.log\<close>,
  \<open>console.warn\<close>, \<open>console.error\<close>, \<open>fs.readFile(path)\<close>, the login \<open>POST url body\<close>, the key
  \<open>GET url headers\<close>, the seal-status \<open>GET url\<close> and the unseal \<open>PUT url body\<close>.
\<close>

datatype event =
    ConsoleLog line
  | ConsoleWarn line
  | ConsoleError line
  | ReadFile string
  | PostLogin string jsval
  | GetKeys string "(string \<times> jsval) list"
  | GetSealStatus string
  | PutUnseal string jsval

text \<open>
  What the outside answers during one run of \<open>checkAndUnseal\<close>. A call either rejects with an
  error or resolves; of a resolved HTTP response the program reads only \<open>data\<close>, so that is
  what a response function returns. The unseal endpoint is the only one called more than
  once in a run, so its answer may also depend on how many submissions came before.
  \<open>ToIntegerOrInfinity_object\<close> is the engine's numeric conversion of a string, an array or an
  object (it parses through IEEE doubles and \<open>ToPrimitive\<close>, and may throw); it is left open,
  so that every statement below holds whatever it yields.
\<close>

record world =
  readFile :: "string \<Rightarrow> js_error + string"
  post_login :: "string \<Rightarrow> jsval \<Rightarrow> js_error + jsval"
  get_keys :: "string \<Rightarrow> (string \<times> jsval) list \<Rightarrow> js_error + jsval"
  get_status :: "string \<Rightarrow> js_error + jsval"
  put_unseal :: "string \<Rightarrow> jsval \<Rightarrow> nat \<Rightarrow> js_error + jsval"
  ToIntegerOrInfinity_object :: "jsval \<Rightarrow> js_error + ext_int"

text \<open>
  A computation yields a result (\<open>Inl\<close>: it threw, or its promise rejected) and the events it
  produced. \<open>bind\<close> is sequencing (\<open>await\<close> included): an error skips what follows.
  \<open>try_catch\<close> runs the handler on an error.
\<close>

type_synonym 'a comp = "(js_error + 'a) \<times> event list"

definition ret :: "'a \<Rightarrow> 'a comp" where
  "ret x = (Inr x, [])"

definition throw :: "js_error \<Rightarrow> 'a comp" where
  "throw e = (Inl e, [])"

definition lift :: "js_error + 'a \<Rightarrow> 'a comp" where
  "lift r = (r, [])"

definition emit :: "event \<Rightarrow> unit comp" where
  "emit ev = (Inr (), [ev])"

definition call :: "event \<Rightarrow> js_error + 'a \<Rightarrow> 'a comp" where
  "call ev r = (r, [ev])"

definition bind :: "'a comp \<Rightarrow> ('a \<Rightarrow> 'b comp) \<Rightarrow> 'b comp" where
  "bind m f =
     (case m of
        (Inl e, evs) \<Rightarrow> (Inl e, evs)
      | (Inr x, evs) \<Rightarrow> (case f x of (r, evs') \<Rightarrow> (r, evs @ evs')))"

definition try_catch :: "'a comp \<Rightarrow> (js_error \<Rightarrow> 'a comp) \<Rightarrow> 'a comp" where
  "try_catch m h =
     (case m of
        (Inl e, evs) \<Rightarrow> (case h e of (r, evs') \<Rightarrow> (r, evs @ evs'))
      | (Inr x, evs) \<Rightarrow> (Inr x, evs))"

text \<open>\<open>ToIntegerOrInfinity(v)\<close>; \<open>undefined\<close> converts to NaN and NaN to 0.\<close>

fun ToIntegerOrInfinity :: "world \<Rightarrow> jsval \<Rightarrow> js_error + ext_int" where
  "ToIntegerOrInfinity w Undefined = Inr (Fin 0)"
| "ToIntegerOrInfinity w Null = Inr (Fin 0)"
| "ToIntegerOrInfinity w (Bool b) = Inr (Fin (if b then 1 else 0))"
| "ToIntegerOrInfinity w (Num n) = Inr (Fin n)"
| "ToIntegerOrInfinity w v = ToIntegerOrInfinity_object w v"

text \<open>\<open>xs.slice(0, end)\<close>; an \<open>undefined\<close> end is the length.\<close>

definition array_slice0 :: "world \<Rightarrow> 'a list \<Rightarrow> jsval \<Rightarrow> js_error + 'a list" where
  "array_slice0 w xs end =
     (if end = Undefined then Inr xs
      else (case ToIntegerOrInfinity w end of
              Inl e \<Rightarrow> Inl e
            | Inr k \<Rightarrow> Inr (slice0 xs k)))"

section \<open>Main logic\<close>

definition getPrimaryVaultToken :: "world \<Rightarrow> config \<Rightarrow> jsval comp" where
  "getPrimaryVaultToken w cfg =
     bind (emit (ConsoleLog LoginAttempt)) (\<lambda>_.
     try_catch
       (bind (call (ReadFile (jwtTokenPath cfg)) (readFile w (jwtTokenPath cfg))) (\<lambda>jwt.
        let url = primaryVaultAddr cfg @ ''/v1/auth/kubernetes/login'';
            body = Obj [(''jwt'', Str jwt), (''role'', Str (k8sAuthRole cfg))] in
        bind (call (PostLogin url body) (post_login w url body)) (\<lambda>data.
        bind (lift (get_prop data ''auth'')) (\<lambda>auth.
        bind (lift (get_prop auth ''client_token'')) (\<lambda>token.
        if \<not> truthy token then throw (Error ''Client token not found in login response.'')
        else
          bind (emit (ConsoleLog LoginSuccess)) (\<lambda>_.
          ret token))))))
       (\<lambda>error.
          bind (emit (ConsoleError (LoginError (message error)))) (\<lambda>_.
          throw error)))"

text \<open>The url and the headers of the key request.\<close>

definition keys_url :: "config \<Rightarrow> string" where
  "keys_url cfg = primaryVaultAddr cfg @ ''/v1/'' @ unsealKeysPath cfg"

definition keys_headers :: "config \<Rightarrow> jsval \<Rightarrow> (string \<times> jsval) list" where
  "keys_headers cfg token =
     [(''X-Vault-Token'', token), (''X-Vault-Namespace'', Str (vaultNamespace cfg))]"

definition getUnsealKeys :: "world \<Rightarrow> config \<Rightarrow> jsval list comp" where
  "getUnsealKeys w cfg =
     try_catch
       (bind (getPrimaryVaultToken w cfg) (\<lambda>token.
        bind (emit (ConsoleLog FetchingKeys)) (\<lambda>_.
        let url = keys_url cfg; headers = keys_headers cfg token in
        bind (call (GetKeys url headers) (get_keys w url headers)) (\<lambda>data.
        bind (lift (get_prop data ''data'')) (\<lambda>data_data.
        bind (lift (get_prop data_data ''data'')) (\<lambda>keys.
        if \<not> truthy keys \<or> length (Object_values keys) = 0
        then throw (Error ''No unseal keys found or path is incorrect.'')
        else
          bind (emit (ConsoleLog (FetchedKeys (length (Object_values keys))))) (\<lambda>_.
          ret (Object_values keys))))))))
       (\<lambda>error.
          bind (emit (ConsoleError (FetchError (message error)))) (\<lambda>_.
          throw error))"

text \<open>
  The \<open>for (const key of keysToUse)\<close> loop; \<open>i\<close> counts the submissions made before. The branch
  that emits \<open>NowUnsealed\<close> is the \<open>break\<close>. The progress line is a template literal that
  interpolates \<open>progress\<close> and \<open>threshold\<close>, so it throws when one of them cannot be converted
  to a string.
\<close>

fun unseal_loop :: "world \<Rightarrow> string \<Rightarrow> jsval list \<Rightarrow> nat \<Rightarrow> unit comp" where
  "unseal_loop w targetAddr [] i = ret ()"
| "unseal_loop w targetAddr (key # rest) i =
     bind (emit (ConsoleLog (Submitting targetAddr))) (\<lambda>_.
     let url = targetAddr @ ''/v1/sys/unseal''; body = Obj [(''key'', key)] in
     bind (call (PutUnseal url body) (put_unseal w url body i)) (\<lambda>data.
     bind (lift (get_prop data ''sealed'')) (\<lambda>sealed.
     if \<not> truthy sealed then emit (ConsoleLog (NowUnsealed targetAddr))
     else
       bind (lift (get_prop data ''progress'')) (\<lambda>progress.
       bind (lift (get_prop data ''t'')) (\<lambda>threshold.
       bind (lift (interpolate progress)) (\<lambda>progress_shown.
       bind (lift (interpolate threshold)) (\<lambda>threshold_shown.
       bind (emit (ConsoleLog (Progress targetAddr progress_shown threshold_shown))) (\<lambda>_.
       unseal_loop w targetAddr rest (Suc i)))))))))"

text \<open>\<open>const keysToUse = unsealKeys.slice(0, statusRes.data.t || 3)\<close>, given the value of \<open>t\<close>.\<close>

definition keysToUse :: "world \<Rightarrow> jsval list \<Rightarrow> jsval \<Rightarrow> js_error + jsval list" where
  "keysToUse w unsealKeys t = array_slice0 w unsealKeys (js_or t (Num 3))"

text \<open>
  The body of the \<open>catch\<close> block of \<open>checkAndUnseal\<close>: \<open>if (error.response)\<close> chooses between
  its two \<open>console.error\<close> statements.
\<close>

definition report_error :: "string \<Rightarrow> js_error \<Rightarrow> event" where
  "report_error targetAddr error =
     ConsoleError
       (case response error of
          Some (status, d) \<Rightarrow> ErrorResponse targetAddr status d
        | None \<Rightarrow> ErrorConnecting targetAddr (message error))"

text \<open>The \<open>try\<close> block of \<open>checkAndUnseal\<close>.\<close>

definition checkAndUnseal_try :: "world \<Rightarrow> config \<Rightarrow> string \<Rightarrow> unit comp" where
  "checkAndUnseal_try w cfg targetAddr =
     bind (emit (ConsoleLog (Checking targetAddr))) (\<lambda>_.
     let url = targetAddr @ ''/v1/sys/seal-status'' in
     bind (call (GetSealStatus url) (get_status w url)) (\<lambda>data.
     bind (lift (get_prop data ''sealed'')) (\<lambda>sealed.
     if truthy sealed then
       bind (emit (ConsoleLog (IsSealed targetAddr))) (\<lambda>_.
       bind (getUnsealKeys w cfg) (\<lambda>unsealKeys.
       bind (lift (get_prop data ''t'')) (\<lambda>t.
       bind (lift (keysToUse w unsealKeys t)) (\<lambda>keys.
       unseal_loop w targetAddr keys 0))))
     else emit (ConsoleLog (IsAlreadyUnsealed targetAddr)))))"

definition checkAndUnseal :: "world \<Rightarrow> config \<Rightarrow> string \<Rightarrow> unit comp" where
  "checkAndUnseal w cfg targetAddr =
     try_catch (checkAndUnseal_try w cfg targetAddr)
       (\<lambda>error. emit (report_error targetAddr error))"

text \<open>
  \<open>config.targetVaultAddrs.forEach(checkAndUnseal)\<close> calls the async function once for each
  address and awaits none of the promises: the runs interleave at their awaits, and share
  nothing on the program's side. The model gives each run its own \<open>world\<close> (\<open>ws i\<close> for the
  address at position \<open>i\<close>) and returns, next to the events of \<open>pollVaultNodes\<close> itself, the
  runs it started, in the order of the list.
\<close>

definition pollVaultNodes :: "(nat \<Rightarrow> world) \<Rightarrow> config \<Rightarrow> event list \<times> unit comp list" where
  "pollVaultNodes ws cfg =
     (if length (targetVaultAddrs cfg) = 0
      then ([ConsoleLog CycleStart, ConsoleWarn NoTargets], [])
      else ([ConsoleLog CycleStart],
            map (\<lambda>(i, targetAddr). checkAndUnseal (ws i) cfg targetAddr)
                (enumerate 0 (targetVaultAddrs cfg))))"


section \<open>Reading a run\<close>

text \<open>
  The Key Source Client is \<open>getUnsealKeys\<close> with the login it starts: the events below are the
  ones these two functions produce, and no other function produces them.
\<close>

fun key_source_event :: "event \<Rightarrow> bool" where
  "key_source_event (ReadFile path) = True"
| "key_source_event (PostLogin url body) = True"
| "key_source_event (GetKeys url headers) = True"
| "key_source_event (ConsoleLog LoginAttempt) = True"
| "key_source_event (ConsoleLog LoginSuccess) = True"
| "key_source_event (ConsoleLog FetchingKeys) = True"
| "key_source_event (ConsoleLog (FetchedKeys n)) = True"
| "key_source_event (ConsoleError (LoginError msg)) = True"
| "key_source_event (ConsoleError (FetchError msg)) = True"
| "key_source_event ev = False"

text \<open>The unseal submissions of a run, in order: the url and the body of each \<open>PUT\<close>.\<close>

fun submitted :: "event list \<Rightarrow> (string \<times> jsval) list" where
  "submitted [] = []"
| "submitted (PutUnseal url body # evs) = (url, body) # submitted evs"
| "submitted (ev # evs) = submitted evs"

text \<open>The submission that \<open>checkAndUnseal\<close> makes of one key to one target.\<close>

definition submission :: "string \<Rightarrow> jsval \<Rightarrow> string \<times> jsval" where
  "submission targetAddr key = (targetAddr @ ''/v1/sys/unseal'', Obj [(''key'', key)])"

text \<open>
  What the world answers when \<open>key\<close> is submitted to \<open>targetAddr\<close> after \<open>i\<close> earlier
  submissions of the same run.
\<close>

definition response_to :: "world \<Rightarrow> string \<Rightarrow> jsval \<Rightarrow> nat \<Rightarrow> js_error + jsval" where
  "response_to w targetAddr key i =
     put_unseal w (targetAddr @ ''/v1/sys/unseal'') (Obj [(''key'', key)]) i"

text \<open>
  What a response to a submission tells the loop: \<open>reports_sealed\<close>, it resolved and its
  \<open>data.sealed\<close> is truthy (the loop prints the progress); \<open>reports_unsealed\<close>, it resolved
  and its \<open>data.sealed\<close> is falsy (the loop breaks). With a response that is neither, the
  loop throws.
\<close>

definition reports_sealed :: "js_error + jsval \<Rightarrow> bool" where
  "reports_sealed r =
     (case r of Inl e \<Rightarrow> False
      | Inr d \<Rightarrow> (case get_prop d ''sealed'' of Inl e \<Rightarrow> False | Inr s \<Rightarrow> truthy s))"

definition reports_unsealed :: "js_error + jsval \<Rightarrow> bool" where
  "reports_unsealed r =
     (case r of Inl e \<Rightarrow> False
      | Inr d \<Rightarrow> (case get_prop d ''sealed'' of Inl e \<Rightarrow> False | Inr s \<Rightarrow> \<not> truthy s))"

text \<open>
  \<open>shows_progress\<close>: the \<open>progress\<close> and the \<open>t\<close> of a resolved response can both be printed
  in the progress line. \<open>goes_on\<close>: the response reports sealed and its progress can be
  printed, which is when the loop reaches the next key.
\<close>

definition shows_progress :: "js_error + jsval \<Rightarrow> bool" where
  "shows_progress r =
     (case r of Inl e \<Rightarrow> False
      | Inr d \<Rightarrow>
         (case get_prop d ''progress'' of Inl e \<Rightarrow> False
          | Inr p \<Rightarrow>
             (case get_prop d ''t'' of Inl e \<Rightarrow> False
              | Inr t \<Rightarrow> \<not> ToString_throws p \<and> \<not> ToString_throws t)))"

definition goes_on :: "js_error + jsval \<Rightarrow> bool" where
  "goes_on r = (reports_sealed r \<and> shows_progress r)"

text \<open>
  \<open>checkAndUnseal\<close> returns no value: how a run ended shows in its console lines. The spec
  names the ways a reconciliation can end; \<open>outcome\<close> reads the spec's name off a run.
  A run failed when the \<open>catch\<close> of \<open>checkAndUnseal\<close> printed; the failure is a key fetch error
  when \<open>getUnsealKeys\<close> printed its own error line before, and is the probe's (the target
  was unreachable or answered with an error) when the run never got to the sealed branch.
\<close>

datatype reason = Unreachable | KeyFetchError | OtherError

datatype Outcome = AlreadyUnsealed | Unsealed | PartiallySubmitted | Failed reason

fun is_caught :: "event \<Rightarrow> bool" where
  "is_caught (ConsoleError (ErrorResponse targetAddr status d)) = True"
| "is_caught (ConsoleError (ErrorConnecting targetAddr msg)) = True"
| "is_caught ev = False"

fun is_fetch_error :: "event \<Rightarrow> bool" where
  "is_fetch_error (ConsoleError (FetchError msg)) = True"
| "is_fetch_error ev = False"

fun is_sealed_line :: "event \<Rightarrow> bool" where
  "is_sealed_line (ConsoleLog (IsSealed targetAddr)) = True"
| "is_sealed_line ev = False"

fun is_already_unsealed_line :: "event \<Rightarrow> bool" where
  "is_already_unsealed_line (ConsoleLog (IsAlreadyUnsealed targetAddr)) = True"
| "is_already_unsealed_line ev = False"

fun is_now_unsealed_line :: "event \<Rightarrow> bool" where
  "is_now_unsealed_line (ConsoleLog (NowUnsealed targetAddr)) = True"
| "is_now_unsealed_line ev = False"

definition outcome :: "unit comp \<Rightarrow> Outcome" where
  "outcome run =
     (if list_ex is_caught (snd run) then
        Failed (if list_ex is_fetch_error (snd run) then KeyFetchError
                else if list_ex is_sealed_line (snd run) then OtherError
                else Unreachable)
      else if list_ex is_already_unsealed_line (snd run) then AlreadyUnsealed
      else if list_ex is_now_unsealed_line (snd run) then Unsealed
      else PartiallySubmitted)"

section \<open>Example worlds\<close>

definition example_config :: config where
  "example_config =
     \<lparr>primaryVaultAddr = ''P'', jwtTokenPath = ''/jwt'', k8sAuthRole = ''role'',
      vaultNamespace = ''ns'', unsealKeysPath = ''kv/data/keys'',
      targetVaultAddrs = [''A'', ''B'']\<rparr>"

definition five_keys :: jsval where
  "five_keys =
     Obj [(''key1'', Str ''k1''), (''key2'', Str ''k2''), (''key3'', Str ''k3''),
          (''key4'', Str ''k4''), (''key5'', Str ''k5'')]"

text \<open>
  A sealed target with threshold 3: the primary serves five keys, and the third submission
  unseals the target.
\<close>

definition sealed_world :: world where
  "sealed_world =
     \<lparr>readFile = (\<lambda>path. Inr ''jwt''),
      post_login = (\<lambda>url body. Inr (Obj [(''auth'', Obj [(''client_token'', Str ''tok'')])])),
      get_keys = (\<lambda>url headers. Inr (Obj [(''data'', Obj [(''data'', five_keys)])])),
      get_status = (\<lambda>url. Inr (Obj [(''sealed'', Bool True), (''t'', Num 3), (''progress'', Num 0)])),
      put_unseal = (\<lambda>url body i.
         Inr (Obj [(''sealed'', Bool (i < 2)), (''t'', Num 3), (''progress'', Num (int i + 1))])),
      ToIntegerOrInfinity_object = (\<lambda>v. Inr (Fin 0))\<rparr>"

text \<open>The same, with a target that stays sealed whatever is submitted.\<close>

definition stuck_world :: world where
  "stuck_world =
     sealed_world\<lparr>put_unseal := (\<lambda>url body i.
         Inr (Obj [(''sealed'', Bool True), (''t'', Num 3), (''progress'', Num 0)]))\<rparr>"

text \<open>The same, with a target that reports the threshold 0.\<close>

definition zero_threshold_world :: world where
  "zero_threshold_world =
     stuck_world\<lparr>get_status := (\<lambda>url.
         Inr (Obj [(''sealed'', Bool True), (''t'', Num 0), (''progress'', Num 0)]))\<rparr>"


text \<open>A primary whose secret holds no key.\<close>

definition no_keys_world :: world where
  "no_keys_world =
     sealed_world\<lparr>get_keys := (\<lambda>url headers. Inr (Obj [(''data'', Obj [(''data'', Obj [])])]))\<rparr>"


text \<open>A primary whose secret holds a string where the collection of keys should be.\<close>

definition string_keys_world :: world where
  "string_keys_world =
     sealed_world\<lparr>get_keys := (\<lambda>url headers.
         Inr (Obj [(''data'', Obj [(''data'', Str ''abc'')])]))\<rparr>"

text \<open>A target that is not sealed.\<close>

definition unsealed_world :: world where
  "unsealed_world =
     sealed_world\<lparr>get_status := (\<lambda>url.
         Inr (Obj [(''sealed'', Bool False), (''t'', Num 3), (''progress'', Num 0)]))\<rparr>"

text \<open>A target that does not answer the probe.\<close>

definition unreachable_world :: world where
  "unreachable_world =
     sealed_world\<lparr>get_status := (\<lambda>url. Inl (Error ''connect ECONNREFUSED''))\<rparr>"

text \<open>A sealed target, and a primary that refuses the key read with status 403.\<close>

definition forbidden_world :: world where
  "forbidden_world =
     sealed_world\<lparr>get_keys := (\<lambda>url headers.
         Inl \<lparr>message = ''Request failed with status code 403'',
              response = Some (403, Obj [(''errors'', Arr [Str ''permission denied''])])\<rparr>)\<rparr>"

section \<open>Laws of sequencing\<close>

lemma bind_Inl: "bind (Inl e, evs) f = (Inl e, evs)"
  by (simp add: bind_def)

lemma bind_Inr: "bind (Inr x, evs) f = (fst (f x), evs @ snd (f x))"
  by (simp add: bind_def split: prod.splits)

lemma bind_emit: "bind (emit ev) f = (fst (f ()), ev # snd (f ()))"
  by (simp add: emit_def bind_Inr)

lemma bind_lift_Inr: "bind (lift (Inr x)) f = f x"
  by (simp add: lift_def bind_Inr)

lemma bind_lift_Inl: "bind (lift (Inl e)) f = (Inl e, [])"
  by (simp add: lift_def bind_Inl)

lemma bind_call_Inr: "bind (call ev (Inr x)) f = (fst (f x), ev # snd (f x))"
  by (simp add: call_def bind_Inr)

lemma bind_call_Inl: "bind (call ev (Inl e)) f = (Inl e, [ev])"
  by (simp add: call_def bind_Inl)

lemma try_catch_Inr: "try_catch (Inr x, evs) h = (Inr x, evs)"
  by (simp add: try_catch_def)

lemma try_catch_Inl: "try_catch (Inl e, evs) h = (fst (h e), evs @ snd (h e))"
  by (simp add: try_catch_def split: prod.splits)

lemma fst_emit: "fst (emit ev) = Inr ()"
  by (simp add: emit_def)

lemma snd_emit: "snd (emit ev) = [ev]"
  by (simp add: emit_def)

lemmas comp_simps = bind_Inl bind_Inr bind_emit bind_lift_Inr bind_lift_Inl bind_call_Inr
  bind_call_Inl try_catch_Inr try_catch_Inl fst_emit snd_emit

text \<open>A handler that prints one line and throws the error again.\<close>

lemma try_catch_rethrow:
  "try_catch m (\<lambda>error. bind (emit (ev error)) (\<lambda>_. throw error)) =
     (case m of (Inl e, evs) \<Rightarrow> (Inl e, evs @ [ev e]) | (Inr x, evs) \<Rightarrow> (Inr x, evs))"
  by (simp add: try_catch_def bind_def emit_def throw_def split: prod.splits sum.splits)

section \<open>Auxiliary facts\<close>

subsection \<open>The Key Source Client emits only its own events\<close>

lemma getPrimaryVaultToken_events:
  "list_all key_source_event (snd (getPrimaryVaultToken w cfg))"
  by (simp add: getPrimaryVaultToken_def bind_def try_catch_def emit_def call_def lift_def
      ret_def throw_def Let_def split: sum.splits prod.splits)

lemma getUnsealKeys_events: "list_all key_source_event (snd (getUnsealKeys w cfg))"
proof -
  obtain r evs where tok: "getPrimaryVaultToken w cfg = (r, evs)"
    by (cases "getPrimaryVaultToken w cfg")
  with getPrimaryVaultToken_events [of w cfg] have "list_all key_source_event evs"
    by simp
  with tok show ?thesis
    by (simp add: getUnsealKeys_def bind_def try_catch_def emit_def call_def lift_def
        ret_def throw_def Let_def split: sum.splits prod.splits)
qed

lemma getPrimaryVaultToken_starts:
  "\<exists>evs. snd (getPrimaryVaultToken w cfg) = ConsoleLog LoginAttempt # evs"
  by (simp add: getPrimaryVaultToken_def bind_emit)

lemma getUnsealKeys_starts:
  "\<exists>evs. snd (getUnsealKeys w cfg) = ConsoleLog LoginAttempt # evs"
proof -
  obtain r evs where tok: "getPrimaryVaultToken w cfg = (r, ConsoleLog LoginAttempt # evs)"
    using getPrimaryVaultToken_starts [of w cfg]
    by (cases "getPrimaryVaultToken w cfg") auto
  show ?thesis
    unfolding getUnsealKeys_def try_catch_rethrow tok
    by (cases r) (auto simp: bind_Inl bind_Inr split: prod.splits sum.splits)
qed

lemma getUnsealKeys_error_line:
  assumes "fst (getUnsealKeys w cfg) = Inl e"
  shows "\<exists>evs. snd (getUnsealKeys w cfg) = evs @ [ConsoleError (FetchError (message e))]"
  using assms unfolding getUnsealKeys_def try_catch_rethrow
  by (auto split: prod.splits sum.splits)

lemma login_failure_fails_key_fetch:
  assumes "fst (getPrimaryVaultToken w cfg) = Inl e"
  shows "fst (getUnsealKeys w cfg) = Inl e"
proof -
  obtain evs where "getPrimaryVaultToken w cfg = (Inl e, evs)"
    using assms by (cases "getPrimaryVaultToken w cfg") auto
  then show ?thesis
    unfolding getUnsealKeys_def try_catch_rethrow by (simp add: bind_Inl)
qed

subsection \<open>Reading events\<close>

lemma key_source_not_caught: "key_source_event ev \<Longrightarrow> \<not> is_caught ev"
  by (erule key_source_event.elims) simp_all

lemma key_source_not_sealed_line: "key_source_event ev \<Longrightarrow> \<not> is_sealed_line ev"
  by (erule key_source_event.elims) simp_all

lemma key_source_not_already: "key_source_event ev \<Longrightarrow> \<not> is_already_unsealed_line ev"
  by (erule key_source_event.elims) simp_all

lemma key_source_not_now: "key_source_event ev \<Longrightarrow> \<not> is_now_unsealed_line ev"
  by (erule key_source_event.elims) simp_all

lemma key_source_not_submitted: "list_all key_source_event evs \<Longrightarrow> submitted evs = []"
proof (induction evs)
  case Nil
  show ?case by simp
next
  case (Cons ev evs)
  then show ?case by (cases ev) simp_all
qed

lemma submitted_append: "submitted (xs @ ys) = submitted xs @ submitted ys"
proof (induction xs)
  case Nil
  show ?case by simp
next
  case (Cons ev xs)
  then show ?case by (cases ev) simp_all
qed

lemma is_caught_report_error: "is_caught (report_error targetAddr e)"
  by (simp add: report_error_def split: option.splits)

lemma report_error_not_key_source: "\<not> key_source_event (report_error targetAddr e)"
  by (simp add: report_error_def split: option.splits)

lemma report_error_not_fetch_error: "\<not> is_fetch_error (report_error targetAddr e)"
  by (simp add: report_error_def split: option.splits)

lemma submitted_report_error: "submitted [report_error targetAddr e] = []"
  by (simp add: report_error_def)

subsection \<open>The probe and the catch\<close>

lemma checkAndUnseal_resolves: "fst (checkAndUnseal w cfg targetAddr) = Inr ()"
  unfolding checkAndUnseal_def try_catch_def
  by (simp add: emit_def split: prod.splits sum.splits)

lemma checkAndUnseal_try_probes:
  "\<exists>evs. snd (checkAndUnseal_try w cfg targetAddr) =
     ConsoleLog (Checking targetAddr) # GetSealStatus (targetAddr @ ''/v1/sys/seal-status'') # evs"
  by (cases "get_status w (targetAddr @ ''/v1/sys/seal-status'')")
     (simp_all add: checkAndUnseal_try_def comp_simps)

lemma checkAndUnseal_probes:
  "\<exists>evs. snd (checkAndUnseal w cfg targetAddr) =
     ConsoleLog (Checking targetAddr) # GetSealStatus (targetAddr @ ''/v1/sys/seal-status'') # evs"
proof -
  obtain r evs where body: "checkAndUnseal_try w cfg targetAddr =
      (r, ConsoleLog (Checking targetAddr)
          # GetSealStatus (targetAddr @ ''/v1/sys/seal-status'') # evs)"
    using checkAndUnseal_try_probes [of w cfg targetAddr]
    by (cases "checkAndUnseal_try w cfg targetAddr") auto
  show ?thesis
    unfolding checkAndUnseal_def body
    by (cases r) (simp_all add: try_catch_Inl try_catch_Inr)
qed

lemma checkAndUnseal_probe_fails:
  assumes "get_status w (targetAddr @ ''/v1/sys/seal-status'') = Inl e"
  shows "checkAndUnseal w cfg targetAddr =
     (Inr (), [ConsoleLog (Checking targetAddr),
               GetSealStatus (targetAddr @ ''/v1/sys/seal-status''),
               report_error targetAddr e])"
  using assms by (simp add: checkAndUnseal_def checkAndUnseal_try_def comp_simps)

lemma pollVaultNodes_runs:
  "snd (pollVaultNodes ws cfg) =
     map (\<lambda>(i, targetAddr). checkAndUnseal (ws i) cfg targetAddr)
       (enumerate 0 (targetVaultAddrs cfg))"
  by (simp add: pollVaultNodes_def)

lemma pollVaultNodes_length:
  "length (snd (pollVaultNodes ws cfg)) = length (targetVaultAddrs cfg)"
  by (simp add: pollVaultNodes_runs)

lemma pollVaultNodes_nth:
  "i < length (targetVaultAddrs cfg) \<Longrightarrow>
   snd (pollVaultNodes ws cfg) ! i = checkAndUnseal (ws i) cfg (targetVaultAddrs cfg ! i)"
  by (simp add: pollVaultNodes_runs nth_enumerate_eq)

subsection \<open>The submission loop\<close>

lemma goes_on_reports_sealed: "goes_on r \<Longrightarrow> reports_sealed r"
  by (simp add: goes_on_def)

lemma unseal_loop_goes_on:
  assumes "goes_on (response_to w targetAddr key i)"
  shows "\<exists>p t. unseal_loop w targetAddr (key # rest) i =
     (fst (unseal_loop w targetAddr rest (Suc i)),
      [ConsoleLog (Submitting targetAddr),
       PutUnseal (targetAddr @ ''/v1/sys/unseal'') (Obj [(''key'', key)]),
       ConsoleLog (Progress targetAddr p t)] @ snd (unseal_loop w targetAddr rest (Suc i)))"
proof -
  from assms obtain d s p t
    where r: "put_unseal w (targetAddr @ ''/v1/sys/unseal'') (Obj [(''key'', key)]) i = Inr d"
      and s: "get_prop d ''sealed'' = Inr s" "truthy s"
      and p: "get_prop d ''progress'' = Inr p" "\<not> ToString_throws p"
      and t: "get_prop d ''t'' = Inr t" "\<not> ToString_throws t"
    by (auto simp: goes_on_def reports_sealed_def shows_progress_def response_to_def
        split: sum.splits)
  then show ?thesis
    by (simp add: comp_simps interpolate_def)
qed

lemma unseal_loop_unsealed:
  assumes "reports_unsealed (response_to w targetAddr key i)"
  shows "unseal_loop w targetAddr (key # rest) i =
     (Inr (),
      [ConsoleLog (Submitting targetAddr),
       PutUnseal (targetAddr @ ''/v1/sys/unseal'') (Obj [(''key'', key)]),
       ConsoleLog (NowUnsealed targetAddr)])"
  using assms
  by (auto simp: reports_unsealed_def response_to_def comp_simps split: sum.splits)

lemma unseal_loop_throws:
  assumes "\<not> goes_on (response_to w targetAddr key i)"
    and "\<not> reports_unsealed (response_to w targetAddr key i)"
  shows "\<exists>e. unseal_loop w targetAddr (key # rest) i =
     (Inl e,
      [ConsoleLog (Submitting targetAddr),
       PutUnseal (targetAddr @ ''/v1/sys/unseal'') (Obj [(''key'', key)])])"
proof (cases "put_unseal w (targetAddr @ ''/v1/sys/unseal'') (Obj [(''key'', key)]) i")
  case (Inl e)
  then show ?thesis
    by (simp add: comp_simps)
next
  case (Inr d)
  show ?thesis
  proof (cases "get_prop d ''sealed''")
    case (Inl e)
    with Inr show ?thesis
      by (simp add: comp_simps)
  next
    case sealed: (Inr s)
    from sealed obtain p t where pt: "get_prop d ''progress'' = Inr p" "get_prop d ''t'' = Inr t"
      by (cases d) auto
    from assms Inr sealed pt have "truthy s" "ToString_throws p \<or> ToString_throws t"
      by (auto simp: goes_on_def reports_sealed_def reports_unsealed_def shows_progress_def
          response_to_def)
    with Inr sealed pt show ?thesis
      by (auto simp: comp_simps interpolate_def)
  qed
qed

lemma goes_on_not_unsealed: "goes_on r \<Longrightarrow> \<not> reports_unsealed r"
  by (auto simp: goes_on_def reports_sealed_def reports_unsealed_def split: sum.splits)

text \<open>How many submissions the loop makes: it goes on exactly while the responses let it.\<close>

lemma unseal_loop_submitted:
  "\<exists>n. n \<le> length ks
     \<and> submitted (snd (unseal_loop w targetAddr ks i)) = map (submission targetAddr) (take n ks)
     \<and> (\<forall>j. Suc j < n \<longrightarrow> goes_on (response_to w targetAddr (ks ! j) (i + j)))
     \<and> (n < length ks \<longrightarrow> \<not> goes_on (response_to w targetAddr (ks ! (n - 1)) (i + (n - 1))))
     \<and> (ks \<noteq> [] \<longrightarrow> 0 < n)"
proof (induction ks arbitrary: i)
  case Nil
  show ?case by (simp add: ret_def)
next
  case (Cons key rest)
  show ?case
  proof (cases "goes_on (response_to w targetAddr key i)")
    case True
    from Cons.IH [of "Suc i"] obtain n where n: "n \<le> length rest"
      "submitted (snd (unseal_loop w targetAddr rest (Suc i))) = map (submission targetAddr) (take n rest)"
      "\<forall>j. Suc j < n \<longrightarrow> goes_on (response_to w targetAddr (rest ! j) (Suc i + j))"
      "n < length rest \<longrightarrow> \<not> goes_on (response_to w targetAddr (rest ! (n - 1)) (Suc i + (n - 1)))"
      "rest \<noteq> [] \<longrightarrow> 0 < n"
      by blast
    from unseal_loop_goes_on [OF True, of rest] obtain p t where
      step: "snd (unseal_loop w targetAddr (key # rest) i) =
         [ConsoleLog (Submitting targetAddr),
          PutUnseal (targetAddr @ ''/v1/sys/unseal'') (Obj [(''key'', key)]),
          ConsoleLog (Progress targetAddr p t)] @ snd (unseal_loop w targetAddr rest (Suc i))"
      by (metis snd_conv)
    have sub: "submitted (snd (unseal_loop w targetAddr (key # rest) i)) =
        map (submission targetAddr) (take (Suc n) (key # rest))"
      unfolding step by (simp add: n(2) submission_def)
    have cont: "\<forall>j. Suc j < Suc n \<longrightarrow>
        goes_on (response_to w targetAddr ((key # rest) ! j) (i + j))"
    proof (intro allI impI)
      fix j assume "Suc j < Suc n"
      then show "goes_on (response_to w targetAddr ((key # rest) ! j) (i + j))"
        using True n(3) by (cases j) auto
    qed
    have stop: "Suc n < length (key # rest) \<longrightarrow>
        \<not> goes_on (response_to w targetAddr ((key # rest) ! (Suc n - 1)) (i + (Suc n - 1)))"
    proof
      assume "Suc n < length (key # rest)"
      then have lt: "n < length rest" by simp
      then have "rest \<noteq> []" by auto
      with n(5) have "0 < n" by simp
      then obtain m where m: "n = Suc m" by (cases n) auto
      from lt n(4) have "\<not> goes_on (response_to w targetAddr (rest ! (n - 1)) (Suc i + (n - 1)))"
        by simp
      with m show "\<not> goes_on (response_to w targetAddr ((key # rest) ! (Suc n - 1)) (i + (Suc n - 1)))"
        by simp
    qed
    from n(1) sub cont stop show ?thesis
      by (intro exI [of _ "Suc n"]) simp
  next
    case False
    have "submitted (snd (unseal_loop w targetAddr (key # rest) i)) =
        map (submission targetAddr) (take 1 (key # rest))"
    proof (cases "reports_unsealed (response_to w targetAddr key i)")
      case True
      then show ?thesis
        by (simp add: unseal_loop_unsealed submission_def del: unseal_loop.simps)
    next
      case unk: False
      from unseal_loop_throws [OF False unk, of rest] show ?thesis
        by (auto simp: submission_def simp del: unseal_loop.simps)
    qed
    with False show ?thesis
      by (intro exI [of _ 1]) simp
  qed
qed

lemma unseal_loop_all_go_on:
  assumes "\<forall>j<length ks. goes_on (response_to w targetAddr (ks ! j) (i + j))"
  shows "fst (unseal_loop w targetAddr ks i) = Inr ()
     \<and> submitted (snd (unseal_loop w targetAddr ks i)) = map (submission targetAddr) ks
     \<and> \<not> list_ex is_now_unsealed_line (snd (unseal_loop w targetAddr ks i))"
  using assms
proof (induction ks arbitrary: i)
  case Nil
  show ?case by (simp add: ret_def)
next
  case (Cons key rest)
  from Cons.prems have first: "goes_on (response_to w targetAddr key i)"
    by auto
  from Cons.prems have "\<forall>j<length rest. goes_on (response_to w targetAddr (rest ! j) (Suc i + j))"
    by auto
  from Cons.IH [OF this] unseal_loop_goes_on [OF first, of rest] show ?case
    by (auto simp: submission_def simp del: unseal_loop.simps)
qed

lemma unseal_loop_quiet:
  "\<not> list_ex is_caught (snd (unseal_loop w targetAddr ks i))
   \<and> \<not> list_ex is_already_unsealed_line (snd (unseal_loop w targetAddr ks i))
   \<and> \<not> list_ex is_fetch_error (snd (unseal_loop w targetAddr ks i))
   \<and> filter key_source_event (snd (unseal_loop w targetAddr ks i)) = []"
proof (induction ks arbitrary: i)
  case Nil
  show ?case by (simp add: ret_def)
next
  case (Cons key rest)
  consider (sealed) "goes_on (response_to w targetAddr key i)"
    | (unsealed) "reports_unsealed (response_to w targetAddr key i)"
    | (throws) "\<not> goes_on (response_to w targetAddr key i)"
        "\<not> reports_unsealed (response_to w targetAddr key i)"
    by blast
  then show ?case
  proof cases
    case sealed
    from Cons.IH [of "Suc i"] unseal_loop_goes_on [OF sealed, of rest] show ?thesis
      by (auto simp del: unseal_loop.simps)
  next
    case unsealed
    then show ?thesis
      by (simp add: unseal_loop_unsealed del: unseal_loop.simps)
  next
    case throws
    from unseal_loop_throws [OF throws, of rest] show ?thesis
      by (auto simp del: unseal_loop.simps)
  qed
qed

subsection \<open>The sealed branch\<close>

lemma keysToUse_positive: "1 \<le> T \<Longrightarrow> keysToUse w ks (Num T) = Inr (take (nat T) ks)"
  by (simp add: keysToUse_def js_or_def array_slice0_def)

lemma keysToUse_falsy: "\<not> truthy t \<Longrightarrow> keysToUse w ks t = Inr (take 3 ks)"
  by (simp add: keysToUse_def js_or_def array_slice0_def)

lemma checkAndUnseal_try_sealed:
  assumes "get_status w (targetAddr @ ''/v1/sys/seal-status'') = Inr data"
    and "get_prop data ''sealed'' = Inr sealed" and "truthy sealed"
    and "get_prop data ''t'' = Inr t"
    and "getUnsealKeys w cfg = (Inr ks, evs)"
    and "keysToUse w ks t = Inr sel"
  shows "checkAndUnseal_try w cfg targetAddr =
     (fst (unseal_loop w targetAddr sel 0),
      [ConsoleLog (Checking targetAddr), GetSealStatus (targetAddr @ ''/v1/sys/seal-status''),
       ConsoleLog (IsSealed targetAddr)] @ evs @ snd (unseal_loop w targetAddr sel 0))"
  using assms by (simp add: checkAndUnseal_try_def comp_simps)

lemma checkAndUnseal_try_key_fetch_fails:
  assumes "get_status w (targetAddr @ ''/v1/sys/seal-status'') = Inr data"
    and "get_prop data ''sealed'' = Inr sealed" and "truthy sealed"
    and "getUnsealKeys w cfg = (Inl e, evs)"
  shows "checkAndUnseal_try w cfg targetAddr =
     (Inl e,
      [ConsoleLog (Checking targetAddr), GetSealStatus (targetAddr @ ''/v1/sys/seal-status''),
       ConsoleLog (IsSealed targetAddr)] @ evs)"
  using assms by (simp add: checkAndUnseal_try_def comp_simps)

lemma submitted_checkAndUnseal_sealed:
  assumes "get_status w (targetAddr @ ''/v1/sys/seal-status'') = Inr data"
    and "get_prop data ''sealed'' = Inr sealed" and "truthy sealed"
    and "get_prop data ''t'' = Inr t"
    and "fst (getUnsealKeys w cfg) = Inr ks"
    and "keysToUse w ks t = Inr sel"
  shows "submitted (snd (checkAndUnseal w cfg targetAddr)) =
         submitted (snd (unseal_loop w targetAddr sel 0))"
proof -
  obtain evs where keys: "getUnsealKeys w cfg = (Inr ks, evs)"
    using assms(5) by (cases "getUnsealKeys w cfg") auto
  have "list_all key_source_event evs"
    using getUnsealKeys_events [of w cfg] keys by simp
  then have none: "submitted evs = []"
    by (rule key_source_not_submitted)
  show ?thesis
    unfolding checkAndUnseal_def checkAndUnseal_try_sealed [OF assms(1-4) keys assms(6)]
    by (cases "fst (unseal_loop w targetAddr sel 0)")
       (simp_all add: comp_simps submitted_append none submitted_report_error)
qed

lemma submitted_prefix_selected:
  assumes "get_status w (targetAddr @ ''/v1/sys/seal-status'') = Inr data"
    and "get_prop data ''sealed'' = Inr sealed" and "truthy sealed"
    and "get_prop data ''t'' = Inr t"
    and "fst (getUnsealKeys w cfg) = Inr ks"
    and "keysToUse w ks t = Inr sel"
  shows "prefix (submitted (snd (checkAndUnseal w cfg targetAddr)))
           (map (submission targetAddr) sel)"
proof -
  from unseal_loop_submitted [of sel w targetAddr 0] obtain n where
    "submitted (snd (unseal_loop w targetAddr sel 0)) = map (submission targetAddr) (take n sel)"
    by blast
  then show ?thesis
    unfolding submitted_checkAndUnseal_sealed [OF assms]
    by (simp add: map_mono_prefix take_is_prefix)
qed

lemma checkAndUnseal_all_go_on:
  assumes "get_status w (targetAddr @ ''/v1/sys/seal-status'') = Inr data"
    and "get_prop data ''sealed'' = Inr sealed"
    and "truthy sealed"
    and "get_prop data ''t'' = Inr t"
    and "fst (getUnsealKeys w cfg) = Inr ks"
    and "keysToUse w ks t = Inr sel"
    and "\<forall>j<length sel. goes_on (response_to w targetAddr (sel ! j) j)"
  shows "fst (checkAndUnseal w cfg targetAddr) = Inr ()
     \<and> submitted (snd (checkAndUnseal w cfg targetAddr)) = map (submission targetAddr) sel
     \<and> \<not> list_ex is_caught (snd (checkAndUnseal w cfg targetAddr))
     \<and> outcome (checkAndUnseal w cfg targetAddr) = PartiallySubmitted"
proof -
  obtain evs where keys: "getUnsealKeys w cfg = (Inr ks, evs)"
    using assms(5) by (cases "getUnsealKeys w cfg") auto
  have ks_evs: "list_all key_source_event evs"
    using getUnsealKeys_events [of w cfg] keys by simp
  from assms(7) have "\<forall>j<length sel. goes_on (response_to w targetAddr (sel ! j) (0 + j))"
    by simp
  note loop = unseal_loop_all_go_on [OF this] unseal_loop_quiet [of w targetAddr sel 0]
  have run: "checkAndUnseal w cfg targetAddr =
      (Inr (), [ConsoleLog (Checking targetAddr),
                GetSealStatus (targetAddr @ ''/v1/sys/seal-status''),
                ConsoleLog (IsSealed targetAddr)] @ evs @ snd (unseal_loop w targetAddr sel 0))"
    unfolding checkAndUnseal_def checkAndUnseal_try_sealed [OF assms(1-4) keys assms(6)]
    using loop(1) by (simp add: comp_simps)
  have quiet: "\<not> list_ex is_caught evs" "\<not> list_ex is_already_unsealed_line evs"
    "\<not> list_ex is_now_unsealed_line evs"
    using ks_evs key_source_not_caught key_source_not_already key_source_not_now
    by (auto simp: list_all_iff list_ex_iff)
  have "outcome (checkAndUnseal w cfg targetAddr) = PartiallySubmitted"
    unfolding run using loop quiet by (simp add: outcome_def)
  moreover have "\<not> list_ex is_caught (snd (checkAndUnseal w cfg targetAddr))"
    unfolding run using loop quiet by simp
  moreover have "submitted (snd (checkAndUnseal w cfg targetAddr)) = map (submission targetAddr) sel"
    using submitted_checkAndUnseal_sealed [OF assms(1-6)] loop(1) by simp
  ultimately show ?thesis
    by (simp add: checkAndUnseal_resolves)
qed


subsection \<open>Worlds that differ in the probe's answer only\<close>

lemma getUnsealKeys_get_status_update:
  "getUnsealKeys (w\<lparr>get_status := f\<rparr>) cfg = getUnsealKeys w cfg"
  by (simp add: getUnsealKeys_def getPrimaryVaultToken_def)

lemma unseal_loop_get_status_update:
  "unseal_loop (w\<lparr>get_status := f\<rparr>) targetAddr ks i = unseal_loop w targetAddr ks i"
  by (induction ks arbitrary: i) (simp_all add: Let_def cong: if_cong)

lemma keysToUse_get_status_update:
  "keysToUse (w\<lparr>get_status := f\<rparr>) ks t = keysToUse w ks t"
  by (cases "js_or t (Num 3)") (simp_all add: keysToUse_def array_slice0_def)

subsection \<open>Unfolding the examples\<close>

lemmas run_defs = checkAndUnseal_def checkAndUnseal_try_def getUnsealKeys_def
  getPrimaryVaultToken_def keys_url_def keys_headers_def keysToUse_def array_slice0_def
  js_or_def ret_def throw_def report_error_def Error_def interpolate_def

section \<open>Configuration parsing\<close>

lemma split_comma_nonempty: "split_comma s \<noteq> []"
  by (induction s) (auto split: list.splits)

lemma split_comma_no_comma: "p \<in> set (split_comma s) \<Longrightarrow> CHR '','' \<notin> set p"
  by (induction s arbitrary: p) (auto split: list.splits if_splits)

text \<open>
  C10. Parsing the comma-separated target list drops every empty entry: whatever the
  variable holds, no address of the resulting list is empty; an unset variable and the empty
  string both give the empty list, and with it \<open>pollVaultNodes\<close> takes the path that only
  warns.
\<close>

theorem targetVaultAddrs_no_empty_address:
  "[] \<notin> set (parse_targetVaultAddrs v)
   \<and> parse_targetVaultAddrs None = []
   \<and> parse_targetVaultAddrs (Some []) = []
   \<and> targetVaultAddrs (load_config getenv)
        = parse_targetVaultAddrs (getenv ''TARGET_VAULT_ADDRS'')
   \<and> pollVaultNodes ws (cfg\<lparr>targetVaultAddrs := parse_targetVaultAddrs None\<rparr>)
        = ([ConsoleLog CycleStart, ConsoleWarn NoTargets], [])
   \<and> pollVaultNodes ws (cfg\<lparr>targetVaultAddrs := parse_targetVaultAddrs (Some [])\<rparr>)
        = ([ConsoleLog CycleStart, ConsoleWarn NoTargets], [])"
  by (simp add: parse_targetVaultAddrs_def env_or_def load_config_def pollVaultNodes_def)

section \<open>The sweep over an empty target list\<close>

text \<open>
  C8. With an empty target list \<open>pollVaultNodes\<close> prints the line that opens the cycle and the
  warning, and starts no run of \<open>checkAndUnseal\<close>: no probe, no key fetch, no submission.
\<close>

theorem pollVaultNodes_empty_only_warns:
  assumes "targetVaultAddrs cfg = []"
  shows "pollVaultNodes ws cfg = ([ConsoleLog CycleStart, ConsoleWarn NoTargets], [])"
  using assms by (simp add: pollVaultNodes_def)

theorem pollVaultNodes_empty_only_warns_witness:
  "targetVaultAddrs (example_config\<lparr>targetVaultAddrs := []\<rparr>) = []
   \<and> pollVaultNodes (\<lambda>i. sealed_world) (example_config\<lparr>targetVaultAddrs := []\<rparr>)
       = ([ConsoleLog CycleStart, ConsoleWarn NoTargets], [])"
  using pollVaultNodes_empty_only_warns
    [of "example_config\<lparr>targetVaultAddrs := []\<rparr>" "\<lambda>i. sealed_world"]
  by simp

section \<open>Reconciling one target\<close>

subsection \<open>A target that is not sealed\<close>

text \<open>
  C1. When the probe resolves and its \<open>sealed\<close> is falsy, \<open>checkAndUnseal\<close> prints that the
  target is already unsealed and returns: the run is the probe between two console lines,
  with no event of the Key Source Client (no login, no key fetch) and no submission.
\<close>

theorem checkAndUnseal_unsealed_no_key_source:
  assumes "get_status w (targetAddr @ ''/v1/sys/seal-status'') = Inr data"
    and "get_prop data ''sealed'' = Inr sealed"
    and "\<not> truthy sealed"
  shows "checkAndUnseal w cfg targetAddr =
           (Inr (), [ConsoleLog (Checking targetAddr),
                     GetSealStatus (targetAddr @ ''/v1/sys/seal-status''),
                     ConsoleLog (IsAlreadyUnsealed targetAddr)])
         \<and> filter key_source_event (snd (checkAndUnseal w cfg targetAddr)) = []
         \<and> submitted (snd (checkAndUnseal w cfg targetAddr)) = []
         \<and> outcome (checkAndUnseal w cfg targetAddr) = AlreadyUnsealed"
  using assms by (simp add: checkAndUnseal_def checkAndUnseal_try_def comp_simps outcome_def)

theorem checkAndUnseal_unsealed_no_key_source_witness:
  "get_status unsealed_world (''A'' @ ''/v1/sys/seal-status'')
     = Inr (Obj [(''sealed'', Bool False), (''t'', Num 3), (''progress'', Num 0)])
   \<and> get_prop (Obj [(''sealed'', Bool False), (''t'', Num 3), (''progress'', Num 0)]) ''sealed''
     = Inr (Bool False)
   \<and> \<not> truthy (Bool False)
   \<and> checkAndUnseal unsealed_world example_config ''A'' =
       (Inr (), [ConsoleLog (Checking ''A''), GetSealStatus ''A/v1/sys/seal-status'',
                 ConsoleLog (IsAlreadyUnsealed ''A'')])
   \<and> filter key_source_event (snd (checkAndUnseal unsealed_world example_config ''A'')) = []
   \<and> submitted (snd (checkAndUnseal unsealed_world example_config ''A'')) = []
   \<and> outcome (checkAndUnseal unsealed_world example_config ''A'') = AlreadyUnsealed"
proof -
  have probe: "get_status unsealed_world (''A'' @ ''/v1/sys/seal-status'')
     = Inr (Obj [(''sealed'', Bool False), (''t'', Num 3), (''progress'', Num 0)])"
    by (simp add: unsealed_world_def sealed_world_def)
  have field: "get_prop (Obj [(''sealed'', Bool False), (''t'', Num 3), (''progress'', Num 0)])
     ''sealed'' = Inr (Bool False)"
    by simp
  have falsy: "\<not> truthy (Bool False)"
    by simp
  show ?thesis
    using probe field falsy
      checkAndUnseal_unsealed_no_key_source [OF probe field falsy, of example_config]
    by (simp add: outcome_def)
qed

subsection \<open>A probe that fails\<close>

text \<open>
  C5. When the seal-status request of the target at position \<open>i\<close> rejects (no connection, or
  an error response), the run of \<open>checkAndUnseal\<close> for it is the probe followed by the line of
  the \<open>catch\<close> block: no event of the Key Source Client, no submission, and the run resolves.
  On the spec's reading the outcome is \<open>Failed Unreachable\<close>. The sweep still holds one run
  for each configured target, and each of them resolves.
\<close>

theorem probe_failure_stays_local:
  assumes "i < length (targetVaultAddrs cfg)"
    and "get_status (ws i) (targetVaultAddrs cfg ! i @ ''/v1/sys/seal-status'') = Inl e"
  shows "checkAndUnseal (ws i) cfg (targetVaultAddrs cfg ! i) =
           (Inr (), [ConsoleLog (Checking (targetVaultAddrs cfg ! i)),
                     GetSealStatus (targetVaultAddrs cfg ! i @ ''/v1/sys/seal-status''),
                     report_error (targetVaultAddrs cfg ! i) e])
     \<and> filter key_source_event (snd (checkAndUnseal (ws i) cfg (targetVaultAddrs cfg ! i))) = []
     \<and> submitted (snd (checkAndUnseal (ws i) cfg (targetVaultAddrs cfg ! i))) = []
     \<and> outcome (checkAndUnseal (ws i) cfg (targetVaultAddrs cfg ! i)) = Failed Unreachable
     \<and> length (snd (pollVaultNodes ws cfg)) = length (targetVaultAddrs cfg)
     \<and> (\<forall>j<length (targetVaultAddrs cfg).
           snd (pollVaultNodes ws cfg) ! j = checkAndUnseal (ws j) cfg (targetVaultAddrs cfg ! j)
           \<and> fst (snd (pollVaultNodes ws cfg) ! j) = Inr ())"
proof -
  note run = checkAndUnseal_probe_fails [OF assms(2), of cfg]
  have "outcome (checkAndUnseal (ws i) cfg (targetVaultAddrs cfg ! i)) = Failed Unreachable"
    unfolding run
    by (simp add: outcome_def is_caught_report_error report_error_not_fetch_error)
       (simp add: report_error_def split: option.splits)
  moreover have "filter key_source_event
      (snd (checkAndUnseal (ws i) cfg (targetVaultAddrs cfg ! i))) = []"
    unfolding run by (simp add: report_error_not_key_source)
  moreover have "submitted (snd (checkAndUnseal (ws i) cfg (targetVaultAddrs cfg ! i))) = []"
    unfolding run by (simp add: report_error_def)
  ultimately show ?thesis
    using run by (simp add: pollVaultNodes_length pollVaultNodes_nth checkAndUnseal_resolves)
qed

theorem probe_failure_stays_local_witness:
  "(0::nat) < length (targetVaultAddrs example_config)
   \<and> get_status unreachable_world (targetVaultAddrs example_config ! 0 @ ''/v1/sys/seal-status'')
       = Inl (Error ''connect ECONNREFUSED'')
   \<and> checkAndUnseal unreachable_world example_config ''A'' =
       (Inr (), [ConsoleLog (Checking ''A''), GetSealStatus ''A/v1/sys/seal-status'',
                 ConsoleError (ErrorConnecting ''A'' ''connect ECONNREFUSED'')])
   \<and> outcome (checkAndUnseal unreachable_world example_config ''A'') = Failed Unreachable
   \<and> length (snd (pollVaultNodes (\<lambda>i. if i = 0 then unreachable_world else unsealed_world)
         example_config)) = 2
   \<and> fst (snd (pollVaultNodes (\<lambda>i. if i = 0 then unreachable_world else unsealed_world)
         example_config) ! 1) = Inr ()"
proof -
  let ?ws = "\<lambda>i::nat. if i = 0 then unreachable_world else unsealed_world"
  have pos: "(0::nat) < length (targetVaultAddrs example_config)"
    by (simp add: example_config_def)
  have one: "(1::nat) < length (targetVaultAddrs example_config)"
    by (simp add: example_config_def)
  have probe: "get_status (?ws 0) (targetVaultAddrs example_config ! 0 @ ''/v1/sys/seal-status'')
      = Inl (Error ''connect ECONNREFUSED'')"
    by (simp add: unreachable_world_def sealed_world_def example_config_def)
  have first: "targetVaultAddrs example_config ! 0 = ''A''"
    by (simp add: example_config_def)
  have two: "length (targetVaultAddrs example_config) = 2"
    by (simp add: example_config_def)
  note local = probe_failure_stays_local [of 0 example_config ?ws, OF pos probe]
  from local [THEN conjunct1]
  have run: "checkAndUnseal unreachable_world example_config ''A'' =
       (Inr (), [ConsoleLog (Checking ''A''), GetSealStatus ''A/v1/sys/seal-status'',
                 ConsoleError (ErrorConnecting ''A'' ''connect ECONNREFUSED'')])"
    by (simp add: first report_error_def Error_def)
  from local [THEN conjunct2, THEN conjunct2, THEN conjunct2, THEN conjunct1]
  have out: "outcome (checkAndUnseal unreachable_world example_config ''A'')
       = Failed Unreachable"
    by (simp add: first)
  from local [THEN conjunct2, THEN conjunct2, THEN conjunct2, THEN conjunct2, THEN conjunct1]
  have len: "length (snd (pollVaultNodes ?ws example_config)) = 2"
    by (simp add: two)
  from local one have other: "fst (snd (pollVaultNodes ?ws example_config) ! 1) = Inr ()"
    by blast
  from probe have "get_status unreachable_world
      (targetVaultAddrs example_config ! 0 @ ''/v1/sys/seal-status'')
      = Inl (Error ''connect ECONNREFUSED'')"
    by simp
  with pos run out len other show ?thesis
    by blast
qed

subsection \<open>A key fetch that fails\<close>

text \<open>
  C3. When the target is sealed and \<open>getUnsealKeys\<close> fails (its login included, by
  \<open>login_failure_fails_key_fetch\<close>), the run of \<open>checkAndUnseal\<close> is the probe, the events of the
  failed key fetch and the line of the \<open>catch\<close> block: it contains no submission at all, and on
  the spec's reading its outcome is \<open>Failed KeyFetchError\<close>.
\<close>

theorem key_fetch_failure_no_submission:
  assumes "get_status w (targetAddr @ ''/v1/sys/seal-status'') = Inr data"
    and "get_prop data ''sealed'' = Inr sealed"
    and "truthy sealed"
    and "fst (getUnsealKeys w cfg) = Inl e"
  shows "checkAndUnseal w cfg targetAddr =
           (Inr (), [ConsoleLog (Checking targetAddr),
                     GetSealStatus (targetAddr @ ''/v1/sys/seal-status''),
                     ConsoleLog (IsSealed targetAddr)]
                    @ snd (getUnsealKeys w cfg) @ [report_error targetAddr e])
     \<and> submitted (snd (checkAndUnseal w cfg targetAddr)) = []
     \<and> outcome (checkAndUnseal w cfg targetAddr) = Failed KeyFetchError"
proof -
  obtain evs where keys: "getUnsealKeys w cfg = (Inl e, evs)"
    using assms(4) by (cases "getUnsealKeys w cfg") auto
  have run: "checkAndUnseal w cfg targetAddr =
      (Inr (), [ConsoleLog (Checking targetAddr),
                GetSealStatus (targetAddr @ ''/v1/sys/seal-status''),
                ConsoleLog (IsSealed targetAddr)] @ evs @ [report_error targetAddr e])"
    unfolding checkAndUnseal_def checkAndUnseal_try_key_fetch_fails [OF assms(1-3) keys]
    by (simp add: comp_simps)
  have "list_all key_source_event evs"
    using getUnsealKeys_events [of w cfg] keys by simp
  then have none: "submitted evs = []"
    by (rule key_source_not_submitted)
  obtain evs' where line: "evs = evs' @ [ConsoleError (FetchError (message e))]"
    using getUnsealKeys_error_line [OF assms(4)] keys by auto
  have "outcome (checkAndUnseal w cfg targetAddr) = Failed KeyFetchError"
    unfolding run by (simp add: outcome_def is_caught_report_error line)
  moreover have "submitted (snd (checkAndUnseal w cfg targetAddr)) = []"
    unfolding run by (simp add: submitted_append none submitted_report_error)
  ultimately show ?thesis
    using run keys by simp
qed

theorem key_fetch_failure_no_submission_witness:
  "get_status forbidden_world (''A'' @ ''/v1/sys/seal-status'')
     = Inr (Obj [(''sealed'', Bool True), (''t'', Num 3), (''progress'', Num 0)])
   \<and> get_prop (Obj [(''sealed'', Bool True), (''t'', Num 3), (''progress'', Num 0)]) ''sealed''
     = Inr (Bool True)
   \<and> truthy (Bool True)
   \<and> fst (getUnsealKeys forbidden_world example_config)
     = Inl \<lparr>message = ''Request failed with status code 403'',
            response = Some (403, Obj [(''errors'', Arr [Str ''permission denied''])])\<rparr>
   \<and> submitted (snd (checkAndUnseal forbidden_world example_config ''A'')) = []
   \<and> outcome (checkAndUnseal forbidden_world example_config ''A'') = Failed KeyFetchError"
proof -
  have probe: "get_status forbidden_world (''A'' @ ''/v1/sys/seal-status'')
     = Inr (Obj [(''sealed'', Bool True), (''t'', Num 3), (''progress'', Num 0)])"
    by (simp add: forbidden_world_def sealed_world_def example_config_def)
  have field: "get_prop (Obj [(''sealed'', Bool True), (''t'', Num 3), (''progress'', Num 0)])
     ''sealed'' = Inr (Bool True)"
    by simp
  have sealed: "truthy (Bool True)"
    by simp
  have fetch: "fst (getUnsealKeys forbidden_world example_config)
     = Inl \<lparr>message = ''Request failed with status code 403'',
            response = Some (403, Obj [(''errors'', Arr [Str ''permission denied''])])\<rparr>"
    by (simp add: forbidden_world_def sealed_world_def example_config_def run_defs comp_simps)
  from key_fetch_failure_no_submission [OF probe field sealed fetch]
  show ?thesis
    using probe field sealed fetch by blast
qed

section \<open>The Key Source Client\<close>

text \<open>
  C7, as the code has it. \<open>getUnsealKeys\<close> fails when the login fails, when the key request
  rejects, when the response cannot be unwrapped twice (its \<open>data\<close> or its \<open>data.data\<close> is
  \<open>undefined\<close> or \<open>null\<close>), and when the unwrapped collection \<open>data.data.data\<close> is missing
  (falsy) or has no values; in the last case the error is the one the function throws
  itself. In every other case it returns \<open>Object.values\<close> of the collection, whatever the
  collection is: for an object, the values of its properties in their order.
\<close>

theorem getUnsealKeys_fails_or_returns_values:
  "(fst (getPrimaryVaultToken w cfg) = Inl e \<longrightarrow> fst (getUnsealKeys w cfg) = Inl e)
   \<and> (fst (getPrimaryVaultToken w cfg) = Inr token \<longrightarrow>
        get_keys w (keys_url cfg) (keys_headers cfg token) = Inl e \<longrightarrow>
        fst (getUnsealKeys w cfg) = Inl e)
   \<and> (fst (getPrimaryVaultToken w cfg) = Inr token \<longrightarrow>
        get_keys w (keys_url cfg) (keys_headers cfg token) = Inr body \<longrightarrow>
        (get_prop body ''data'' = Inl e \<longrightarrow> fst (getUnsealKeys w cfg) = Inl e)
        \<and> (get_prop body ''data'' = Inr d \<longrightarrow>
             (get_prop d ''data'' = Inl e \<longrightarrow> fst (getUnsealKeys w cfg) = Inl e)
             \<and> (get_prop d ''data'' = Inr keys \<longrightarrow>
                  (\<not> truthy keys \<or> Object_values keys = [] \<longrightarrow>
                     fst (getUnsealKeys w cfg)
                       = Inl (Error ''No unseal keys found or path is incorrect.''))
                  \<and> (truthy keys \<and> Object_values keys \<noteq> [] \<longrightarrow>
                     fst (getUnsealKeys w cfg) = Inr (Object_values keys))
                  \<and> (kvs \<noteq> [] \<longrightarrow> keys = Obj kvs \<longrightarrow>
                     fst (getUnsealKeys w cfg) = Inr (map snd kvs)))))"
proof -
  have ok: "fst (getUnsealKeys w cfg) =
      (case get_keys w (keys_url cfg) (keys_headers cfg token) of
         Inl e \<Rightarrow> Inl e
       | Inr body \<Rightarrow>
          (case get_prop body ''data'' of
             Inl e \<Rightarrow> Inl e
           | Inr d \<Rightarrow>
              (case get_prop d ''data'' of
                 Inl e \<Rightarrow> Inl e
               | Inr keys \<Rightarrow>
                  if \<not> truthy keys \<or> Object_values keys = []
                  then Inl (Error ''No unseal keys found or path is incorrect.'')
                  else Inr (Object_values keys))))"
    if login: "fst (getPrimaryVaultToken w cfg) = Inr token" for token
  proof -
    obtain evs where "getPrimaryVaultToken w cfg = (Inr token, evs)"
      using login by (cases "getPrimaryVaultToken w cfg") auto
    then show ?thesis
      unfolding getUnsealKeys_def try_catch_rethrow
      by (simp add: comp_simps ret_def throw_def split: sum.splits prod.splits)
  qed
  show ?thesis
    by (auto simp: login_failure_fails_key_fetch ok)
qed

theorem getUnsealKeys_fails_or_returns_values_witness:
  "fst (getPrimaryVaultToken sealed_world example_config) = Inr (Str ''tok'')
   \<and> get_keys sealed_world (keys_url example_config) (keys_headers example_config (Str ''tok''))
       = Inr (Obj [(''data'', Obj [(''data'', five_keys)])])
   \<and> get_prop (Obj [(''data'', Obj [(''data'', five_keys)])]) ''data''
       = Inr (Obj [(''data'', five_keys)])
   \<and> get_prop (Obj [(''data'', five_keys)]) ''data'' = Inr five_keys
   \<and> truthy five_keys \<and> Object_values five_keys \<noteq> []
   \<and> fst (getUnsealKeys sealed_world example_config)
       = Inr [Str ''k1'', Str ''k2'', Str ''k3'', Str ''k4'', Str ''k5'']
   \<and> fst (getPrimaryVaultToken no_keys_world example_config) = Inr (Str ''tok'')
   \<and> get_keys no_keys_world (keys_url example_config) (keys_headers example_config (Str ''tok''))
       = Inr (Obj [(''data'', Obj [(''data'', Obj [])])])
   \<and> Object_values (Obj []) = []
   \<and> fst (getUnsealKeys no_keys_world example_config)
       = Inl (Error ''No unseal keys found or path is incorrect.'')"
proof -
  have login: "fst (getPrimaryVaultToken sealed_world example_config) = Inr (Str ''tok'')"
    by (simp add: no_keys_world_def sealed_world_def example_config_def five_keys_def run_defs comp_simps)
  have fetch: "get_keys sealed_world (keys_url example_config)
      (keys_headers example_config (Str ''tok''))
       = Inr (Obj [(''data'', Obj [(''data'', five_keys)])])"
    by (simp add: sealed_world_def)
  have unwrap1: "get_prop (Obj [(''data'', Obj [(''data'', five_keys)])]) ''data''
       = Inr (Obj [(''data'', five_keys)])"
    by simp
  have unwrap2: "get_prop (Obj [(''data'', five_keys)]) ''data'' = Inr five_keys"
    by simp
  have some: "truthy five_keys \<and> Object_values five_keys \<noteq> []"
    by (simp add: five_keys_def)
  from getUnsealKeys_fails_or_returns_values
    [of sealed_world example_config _ "Str ''tok''" _ _ five_keys]
    login fetch unwrap1 unwrap2 some
  have "fst (getUnsealKeys sealed_world example_config) = Inr (Object_values five_keys)"
    by blast
  then have fetched: "fst (getUnsealKeys sealed_world example_config)
       = Inr [Str ''k1'', Str ''k2'', Str ''k3'', Str ''k4'', Str ''k5'']"
    by (simp add: five_keys_def)
  have login': "fst (getPrimaryVaultToken no_keys_world example_config) = Inr (Str ''tok'')"
    by (simp add: no_keys_world_def sealed_world_def example_config_def five_keys_def run_defs comp_simps)
  have fetch': "get_keys no_keys_world (keys_url example_config)
      (keys_headers example_config (Str ''tok''))
       = Inr (Obj [(''data'', Obj [(''data'', Obj [])])])"
    by (simp add: no_keys_world_def sealed_world_def example_config_def five_keys_def)
  have unwrap1': "get_prop (Obj [(''data'', Obj [(''data'', Obj [])])]) ''data''
       = Inr (Obj [(''data'', Obj [])])"
    by simp
  have unwrap2': "get_prop (Obj [(''data'', Obj [])]) ''data'' = Inr (Obj [])"
    by simp
  have empty: "Object_values (Obj []) = []"
    by simp
  from getUnsealKeys_fails_or_returns_values
    [of no_keys_world example_config _ "Str ''tok''" _ _ "Obj []"]
    login' fetch' unwrap1' unwrap2' empty
  have "fst (getUnsealKeys no_keys_world example_config)
       = Inl (Error ''No unseal keys found or path is incorrect.'')"
    by blast
  with login fetch unwrap1 unwrap2 some fetched login' fetch' empty show ?thesis
    by blast
qed

text \<open>
  C7 as the spec words it fails for a response that is malformed in another way than by a
  missing level: the key request of \<open>string_keys_world\<close> resolves with
  \<open>{data: {data: 'abc'}}\<close>, a string where the collection of keys should be, and
  \<open>getUnsealKeys\<close> does not fail but returns the characters of the string as keys.
\<close>

theorem string_collection_is_returned:
  "fst (getPrimaryVaultToken string_keys_world example_config) = Inr (Str ''tok'')
   \<and> get_keys string_keys_world (keys_url example_config)
         (keys_headers example_config (Str ''tok''))
       = Inr (Obj [(''data'', Obj [(''data'', Str ''abc'')])])
   \<and> fst (getUnsealKeys string_keys_world example_config)
       = Inr [Str ''a'', Str ''b'', Str ''c'']
   \<and> \<not> isl (fst (getUnsealKeys string_keys_world example_config))"
  by (simp add: string_keys_world_def sealed_world_def example_config_def run_defs comp_simps)

section \<open>The sweep\<close>

text \<open>
  C4. Whatever the worlds answer, \<open>pollVaultNodes\<close> starts one run of \<open>checkAndUnseal\<close> for
  each configured target, in order; each run issues its probe and resolves, so that no error
  leaves it; and an error thrown anywhere in the \<open>try\<close> block of a run is caught in that run,
  which prints it and returns.
\<close>

theorem sweep_reconciles_every_target:
  "length (snd (pollVaultNodes ws cfg)) = length (targetVaultAddrs cfg)
   \<and> (\<forall>i<length (targetVaultAddrs cfg).
         snd (pollVaultNodes ws cfg) ! i = checkAndUnseal (ws i) cfg (targetVaultAddrs cfg ! i)
         \<and> fst (snd (pollVaultNodes ws cfg) ! i) = Inr ()
         \<and> take 2 (snd (snd (pollVaultNodes ws cfg) ! i)) =
             [ConsoleLog (Checking (targetVaultAddrs cfg ! i)),
              GetSealStatus (targetVaultAddrs cfg ! i @ ''/v1/sys/seal-status'')])
   \<and> (\<forall>e evs. checkAndUnseal_try w cfg targetAddr = (Inl e, evs) \<longrightarrow>
         checkAndUnseal w cfg targetAddr = (Inr (), evs @ [report_error targetAddr e]))"
proof -
  have "take 2 (snd (checkAndUnseal w' cfg a)) =
      [ConsoleLog (Checking a), GetSealStatus (a @ ''/v1/sys/seal-status'')]" for w' a
    using checkAndUnseal_probes [of w' cfg a] by auto
  moreover have "checkAndUnseal w cfg targetAddr = (Inr (), evs @ [report_error targetAddr e])"
    if "checkAndUnseal_try w cfg targetAddr = (Inl e, evs)" for e evs
    using that by (simp add: checkAndUnseal_def comp_simps)
  ultimately show ?thesis
    by (simp add: pollVaultNodes_length pollVaultNodes_nth checkAndUnseal_resolves)
qed

theorem sweep_reconciles_every_target_witness:
  "(1::nat) < length (targetVaultAddrs example_config)
   \<and> checkAndUnseal_try forbidden_world example_config ''A'' =
       (Inl \<lparr>message = ''Request failed with status code 403'',
             response = Some (403, Obj [(''errors'', Arr [Str ''permission denied''])])\<rparr>,
        [ConsoleLog (Checking ''A''), GetSealStatus ''A/v1/sys/seal-status'',
         ConsoleLog (IsSealed ''A''), ConsoleLog LoginAttempt, ReadFile ''/jwt'',
         PostLogin ''P/v1/auth/kubernetes/login''
           (Obj [(''jwt'', Str ''jwt''), (''role'', Str ''role'')]),
         ConsoleLog LoginSuccess, ConsoleLog FetchingKeys,
         GetKeys ''P/v1/kv/data/keys''
           [(''X-Vault-Token'', Str ''tok''), (''X-Vault-Namespace'', Str ''ns'')],
         ConsoleError (FetchError ''Request failed with status code 403'')])
   \<and> fst (checkAndUnseal forbidden_world example_config ''A'') = Inr ()
   \<and> length (snd (pollVaultNodes (\<lambda>i. if i = 0 then forbidden_world else sealed_world)
         example_config)) = 2
   \<and> fst (snd (pollVaultNodes (\<lambda>i. if i = 0 then forbidden_world else sealed_world)
         example_config) ! 1) = Inr ()
   \<and> take 2 (snd (snd (pollVaultNodes (\<lambda>i. if i = 0 then forbidden_world else sealed_world)
         example_config) ! 1)) =
       [ConsoleLog (Checking ''B''), GetSealStatus (''B'' @ ''/v1/sys/seal-status'')]"
proof -
  let ?ws = "\<lambda>i::nat. if i = 0 then forbidden_world else sealed_world"
  let ?e = "\<lparr>message = ''Request failed with status code 403'',
             response = Some (403, Obj [(''errors'', Arr [Str ''permission denied''])])\<rparr>"
  let ?evs = "[ConsoleLog (Checking ''A''), GetSealStatus ''A/v1/sys/seal-status'',
         ConsoleLog (IsSealed ''A''), ConsoleLog LoginAttempt, ReadFile ''/jwt'',
         PostLogin ''P/v1/auth/kubernetes/login''
           (Obj [(''jwt'', Str ''jwt''), (''role'', Str ''role'')]),
         ConsoleLog LoginSuccess, ConsoleLog FetchingKeys,
         GetKeys ''P/v1/kv/data/keys''
           [(''X-Vault-Token'', Str ''tok''), (''X-Vault-Namespace'', Str ''ns'')],
         ConsoleError (FetchError ''Request failed with status code 403'')]"
  have one: "(1::nat) < length (targetVaultAddrs example_config)"
    by (simp add: example_config_def)
  have two: "length (targetVaultAddrs example_config) = 2"
    by (simp add: example_config_def)
  have second: "targetVaultAddrs example_config ! 1 = ''B''"
    by (simp add: example_config_def)
  have thrown: "checkAndUnseal_try forbidden_world example_config ''A'' = (Inl ?e, ?evs)"
    by (simp add: forbidden_world_def sealed_world_def example_config_def run_defs comp_simps)
  note sweep = sweep_reconciles_every_target [of ?ws example_config forbidden_world "''A''"]
  from sweep [THEN conjunct2, THEN conjunct2] thrown
  have "checkAndUnseal forbidden_world example_config ''A''
      = (Inr (), ?evs @ [report_error ''A'' ?e])"
    by blast
  then have caught: "fst (checkAndUnseal forbidden_world example_config ''A'') = Inr ()"
    by simp
  from sweep [THEN conjunct1]
  have len: "length (snd (pollVaultNodes ?ws example_config)) = 2"
    by (simp add: two)
  from sweep [THEN conjunct2, THEN conjunct1] one
  have "fst (snd (pollVaultNodes ?ws example_config) ! 1) = Inr ()
      \<and> take 2 (snd (snd (pollVaultNodes ?ws example_config) ! 1)) =
         [ConsoleLog (Checking (targetVaultAddrs example_config ! 1)),
          GetSealStatus (targetVaultAddrs example_config ! 1 @ ''/v1/sys/seal-status'')]"
    by blast
  then have other: "fst (snd (pollVaultNodes ?ws example_config) ! 1) = Inr ()"
    and probed: "take 2 (snd (snd (pollVaultNodes ?ws example_config) ! 1)) =
         [ConsoleLog (Checking ''B''), GetSealStatus (''B'' @ ''/v1/sys/seal-status'')]"
    unfolding second by blast+
  from one thrown caught len other probed show ?thesis
    by blast
qed

section \<open>The sealed branch of a reconciliation\<close>

subsection \<open>How many shares are selected\<close>

text \<open>
  C9. A falsy \<open>t\<close> in the probe's answer (\<open>undefined\<close> when the field is omitted, \<open>null\<close>,
  \<open>false\<close>, \<open>0\<close>, the empty string) makes \<open>t || 3\<close> the default 3: the shares selected are the
  first three fetched keys, exactly as when the field is omitted, and a run whose probe
  reports such a \<open>t\<close> is the same run as with the field left out. The run of a sealed target
  uses that selection: with a falsy \<open>t\<close> its submissions are a prefix of the first three
  fetched keys, and all of them when every response lets the loop go on; with an integer
  \<open>t\<close> of at least 1 the same holds of the first \<open>t\<close> keys.
\<close>

theorem falsy_threshold_uses_default:
  "(\<not> truthy t \<longrightarrow>
      js_or t (Num 3) = Num 3
      \<and> keysToUse w ks t = Inr (take 3 ks)
      \<and> keysToUse w ks t = keysToUse w ks Undefined)
   \<and> (\<not> truthy t \<longrightarrow> map_of kvs ''t'' = None \<longrightarrow>
        checkAndUnseal (w\<lparr>get_status := \<lambda>url. Inr (Obj ((''t'', t) # kvs))\<rparr>) cfg targetAddr
        = checkAndUnseal (w\<lparr>get_status := \<lambda>url. Inr (Obj kvs)\<rparr>) cfg targetAddr)
   \<and> (1 \<le> n \<longrightarrow> js_or (Num n) (Num 3) = Num n \<and> keysToUse w ks (Num n) = Inr (take (nat n) ks))
   \<and> (get_status w (targetAddr @ ''/v1/sys/seal-status'') = Inr data \<longrightarrow>
        get_prop data ''sealed'' = Inr sealed \<longrightarrow> truthy sealed \<longrightarrow>
        get_prop data ''t'' = Inr t \<longrightarrow> fst (getUnsealKeys w cfg) = Inr ks \<longrightarrow>
        (\<not> truthy t \<longrightarrow>
           prefix (submitted (snd (checkAndUnseal w cfg targetAddr)))
             (map (submission targetAddr) (take 3 ks))
           \<and> ((\<forall>j<length (take 3 ks). goes_on (response_to w targetAddr (ks ! j) j)) \<longrightarrow>
                submitted (snd (checkAndUnseal w cfg targetAddr))
                  = map (submission targetAddr) (take 3 ks)))
        \<and> (t = Num n \<longrightarrow> 1 \<le> n \<longrightarrow>
           prefix (submitted (snd (checkAndUnseal w cfg targetAddr)))
             (map (submission targetAddr) (take (nat n) ks))
           \<and> ((\<forall>j<length (take (nat n) ks). goes_on (response_to w targetAddr (ks ! j) j)) \<longrightarrow>
                submitted (snd (checkAndUnseal w cfg targetAddr))
                  = map (submission targetAddr) (take (nat n) ks))))"
proof -
  have run: "checkAndUnseal (w\<lparr>get_status := \<lambda>url. Inr (Obj ((''t'', t) # kvs))\<rparr>) cfg targetAddr
        = checkAndUnseal (w\<lparr>get_status := \<lambda>url. Inr (Obj kvs)\<rparr>) cfg targetAddr"
    if falsy: "\<not> truthy t" and absent: "map_of kvs ''t'' = None"
  proof -
    have "keysToUse w ks' t = keysToUse w ks' Undefined" for ks'
      using falsy by (simp add: keysToUse_falsy)
    then have "checkAndUnseal_try (w\<lparr>get_status := \<lambda>url. Inr (Obj ((''t'', t) # kvs))\<rparr>) cfg targetAddr
        = checkAndUnseal_try (w\<lparr>get_status := \<lambda>url. Inr (Obj kvs)\<rparr>) cfg targetAddr"
      using absent
      by (simp add: checkAndUnseal_try_def comp_simps getUnsealKeys_get_status_update
          unseal_loop_get_status_update keysToUse_get_status_update)
    then show ?thesis
      by (simp add: checkAndUnseal_def)
  qed
  have used: "prefix (submitted (snd (checkAndUnseal w cfg targetAddr)))
             (map (submission targetAddr) (take k ks))
           \<and> ((\<forall>j<length (take k ks). goes_on (response_to w targetAddr (ks ! j) j)) \<longrightarrow>
                submitted (snd (checkAndUnseal w cfg targetAddr))
                  = map (submission targetAddr) (take k ks))"
    if probe: "get_status w (targetAddr @ ''/v1/sys/seal-status'') = Inr data"
      and field: "get_prop data ''sealed'' = Inr sealed" and sealed: "truthy sealed"
      and threshold: "get_prop data ''t'' = Inr t"
      and keys: "fst (getUnsealKeys w cfg) = Inr ks"
      and sel: "keysToUse w ks t = Inr (take k ks)"
    for k
  proof (intro conjI impI)
    show "prefix (submitted (snd (checkAndUnseal w cfg targetAddr)))
             (map (submission targetAddr) (take k ks))"
      by (rule submitted_prefix_selected [OF probe field sealed threshold keys sel])
  next
    assume "\<forall>j<length (take k ks). goes_on (response_to w targetAddr (ks ! j) j)"
    then have "\<forall>j<length (take k ks). goes_on (response_to w targetAddr (take k ks ! j) j)"
      by simp
    from checkAndUnseal_all_go_on [OF probe field sealed threshold keys sel this]
    show "submitted (snd (checkAndUnseal w cfg targetAddr))
        = map (submission targetAddr) (take k ks)"
      by blast
  qed
  have default: "prefix (submitted (snd (checkAndUnseal w cfg targetAddr)))
             (map (submission targetAddr) (take 3 ks))
           \<and> ((\<forall>j<length (take 3 ks). goes_on (response_to w targetAddr (ks ! j) j)) \<longrightarrow>
                submitted (snd (checkAndUnseal w cfg targetAddr))
                  = map (submission targetAddr) (take 3 ks))"
    if "get_status w (targetAddr @ ''/v1/sys/seal-status'') = Inr data"
      and "get_prop data ''sealed'' = Inr sealed" and "truthy sealed"
      and "get_prop data ''t'' = Inr t"
      and "fst (getUnsealKeys w cfg) = Inr ks"
      and "\<not> truthy t"
    using used [of 3] that by (simp add: keysToUse_falsy)
  have given: "prefix (submitted (snd (checkAndUnseal w cfg targetAddr)))
             (map (submission targetAddr) (take (nat n) ks))
           \<and> ((\<forall>j<length (take (nat n) ks). goes_on (response_to w targetAddr (ks ! j) j)) \<longrightarrow>
                submitted (snd (checkAndUnseal w cfg targetAddr))
                  = map (submission targetAddr) (take (nat n) ks))"
    if "get_status w (targetAddr @ ''/v1/sys/seal-status'') = Inr data"
      and "get_prop data ''sealed'' = Inr sealed" and "truthy sealed"
      and "get_prop data ''t'' = Inr t"
      and "fst (getUnsealKeys w cfg) = Inr ks"
      and "t = Num n" and "1 \<le> n"
    using used [of "nat n"] that by (simp add: keysToUse_positive)
  show ?thesis
    using run default given by (simp add: keysToUse_falsy keysToUse_positive js_or_def)
qed

theorem falsy_threshold_uses_default_witness:
  "\<not> truthy (Num 0)
   \<and> js_or (Num 0) (Num 3) = Num 3
   \<and> get_status zero_threshold_world (''A'' @ ''/v1/sys/seal-status'')
       = Inr (Obj [(''sealed'', Bool True), (''t'', Num 0), (''progress'', Num 0)])
   \<and> get_prop (Obj [(''sealed'', Bool True), (''t'', Num 0), (''progress'', Num 0)]) ''sealed''
       = Inr (Bool True)
   \<and> truthy (Bool True)
   \<and> get_prop (Obj [(''sealed'', Bool True), (''t'', Num 0), (''progress'', Num 0)]) ''t''
       = Inr (Num 0)
   \<and> fst (getUnsealKeys zero_threshold_world example_config)
       = Inr [Str ''k1'', Str ''k2'', Str ''k3'', Str ''k4'', Str ''k5'']
   \<and> goes_on (response_to zero_threshold_world ''A'' (Str ''k1'') 0)
   \<and> goes_on (response_to zero_threshold_world ''A'' (Str ''k2'') 1)
   \<and> goes_on (response_to zero_threshold_world ''A'' (Str ''k3'') 2)
   \<and> submitted (snd (checkAndUnseal zero_threshold_world example_config ''A''))
       = [submission ''A'' (Str ''k1''), submission ''A'' (Str ''k2''),
          submission ''A'' (Str ''k3'')]
   \<and> map_of [(''sealed'', Bool True)] ''t'' = None
   \<and> checkAndUnseal
         (stuck_world\<lparr>get_status := \<lambda>url. Inr (Obj [(''t'', Num 0), (''sealed'', Bool True)])\<rparr>)
         example_config ''A''
       = checkAndUnseal
         (stuck_world\<lparr>get_status := \<lambda>url. Inr (Obj [(''sealed'', Bool True)])\<rparr>)
         example_config ''A''"
proof -
  let ?ks = "[Str ''k1'', Str ''k2'', Str ''k3'', Str ''k4'', Str ''k5'']"
  let ?data = "Obj [(''sealed'', Bool True), (''t'', Num 0), (''progress'', Num 0)]"
  have falsy: "\<not> truthy (Num 0)"
    by simp
  have absent: "map_of [(''sealed'', Bool True)] ''t'' = None"
    by simp
  have probe: "get_status zero_threshold_world (''A'' @ ''/v1/sys/seal-status'') = Inr ?data"
    by (simp add: zero_threshold_world_def stuck_world_def sealed_world_def)
  have field: "get_prop ?data ''sealed'' = Inr (Bool True)"
    by simp
  have sealed: "truthy (Bool True)"
    by simp
  have threshold: "get_prop ?data ''t'' = Inr (Num 0)"
    by simp
  have keys: "fst (getUnsealKeys zero_threshold_world example_config) = Inr ?ks"
    by (simp add: zero_threshold_world_def stuck_world_def sealed_world_def example_config_def
        five_keys_def run_defs comp_simps)
  have on: "goes_on (response_to zero_threshold_world ''A'' key j)" for key j
    by (simp add: goes_on_def reports_sealed_def shows_progress_def response_to_def
        zero_threshold_world_def stuck_world_def sealed_world_def)
  then have still: "\<forall>j<length (take 3 ?ks).
      goes_on (response_to zero_threshold_world ''A'' (?ks ! j) j)"
    by blast
  note selected = falsy_threshold_uses_default
    [of "Num 0" zero_threshold_world ?ks "[(''sealed'', Bool True)]" example_config "''A''" 1
        ?data "Bool True"]
  note same = falsy_threshold_uses_default
    [of "Num 0" stuck_world ?ks "[(''sealed'', Bool True)]" example_config "''A''" 1]
  from selected [THEN conjunct1] falsy
  have bound: "js_or (Num 0) (Num 3) = Num 3"
    by blast
  from selected [THEN conjunct2, THEN conjunct2, THEN conjunct2]
    probe field sealed threshold keys falsy still
  have "submitted (snd (checkAndUnseal zero_threshold_world example_config ''A''))
       = map (submission ''A'') (take 3 ?ks)"
    by blast
  then have three: "submitted (snd (checkAndUnseal zero_threshold_world example_config ''A''))
       = [submission ''A'' (Str ''k1''), submission ''A'' (Str ''k2''),
          submission ''A'' (Str ''k3'')]"
    by simp
  from same [THEN conjunct2, THEN conjunct1] falsy absent
  have omitted: "checkAndUnseal
         (stuck_world\<lparr>get_status := \<lambda>url. Inr (Obj [(''t'', Num 0), (''sealed'', Bool True)])\<rparr>)
         example_config ''A''
       = checkAndUnseal
         (stuck_world\<lparr>get_status := \<lambda>url. Inr (Obj [(''sealed'', Bool True)])\<rparr>)
         example_config ''A''"
    by blast
  from falsy bound probe field sealed threshold keys on three absent omitted show ?thesis
    by blast
qed

subsection \<open>Keys exhausted while the target stays sealed\<close>




subsection \<open>Which keys are submitted, and when the loop stops\<close>

text \<open>
  C2, as the code has it. For a sealed target whose probe reports an integer threshold
  \<open>T\<close> of at least 1 and any fetched key sequence \<open>ks\<close>, the submissions of the run are a
  prefix of the first \<open>min T (length ks)\<close> keys, each sent as \<open>{key}\<close> to the target's unseal
  endpoint, in the order \<open>getUnsealKeys\<close> returned them. A submission whose response reports
  sealed=false is the last one; every submission before the last was answered sealed=true,
  with a progress that could be printed; the loop stops short of the selected keys only
  after a response that did not let it go on (an unsealed target, an error, or a progress
  that cannot be printed); and with at least one key fetched at least one is submitted.
\<close>

theorem submissions_are_prefix_of_threshold_keys:
  assumes "get_status w (targetAddr @ ''/v1/sys/seal-status'') = Inr data"
    and "get_prop data ''sealed'' = Inr sealed"
    and "truthy sealed"
    and "get_prop data ''t'' = Inr (Num T)"
    and "1 \<le> T"
    and "fst (getUnsealKeys w cfg) = Inr ks"
  shows "prefix (submitted (snd (checkAndUnseal w cfg targetAddr)))
           (map (submission targetAddr) (take (nat T) ks))
     \<and> (\<forall>j<length (submitted (snd (checkAndUnseal w cfg targetAddr))).
           reports_unsealed (response_to w targetAddr (ks ! j) j) \<longrightarrow>
           length (submitted (snd (checkAndUnseal w cfg targetAddr))) = Suc j)
     \<and> (\<forall>j. Suc j < length (submitted (snd (checkAndUnseal w cfg targetAddr))) \<longrightarrow>
           reports_sealed (response_to w targetAddr (ks ! j) j)
           \<and> goes_on (response_to w targetAddr (ks ! j) j))
     \<and> (length (submitted (snd (checkAndUnseal w cfg targetAddr))) < min (nat T) (length ks) \<longrightarrow>
           \<not> goes_on (response_to w targetAddr
                (ks ! (length (submitted (snd (checkAndUnseal w cfg targetAddr))) - 1))
                (length (submitted (snd (checkAndUnseal w cfg targetAddr))) - 1)))
     \<and> (ks \<noteq> [] \<longrightarrow> submitted (snd (checkAndUnseal w cfg targetAddr)) \<noteq> [])"
proof -
  let ?sel = "take (nat T) ks"
  let ?sub = "submitted (snd (checkAndUnseal w cfg targetAddr))"
  have sub: "?sub = submitted (snd (unseal_loop w targetAddr ?sel 0))"
    by (rule submitted_checkAndUnseal_sealed [OF assms(1-4) assms(6) keysToUse_positive [OF assms(5)]])
  from unseal_loop_submitted [of ?sel w targetAddr 0] obtain n where n: "n \<le> length ?sel"
    "submitted (snd (unseal_loop w targetAddr ?sel 0)) = map (submission targetAddr) (take n ?sel)"
    "\<forall>j. Suc j < n \<longrightarrow> goes_on (response_to w targetAddr (?sel ! j) (0 + j))"
    "n < length ?sel \<longrightarrow> \<not> goes_on (response_to w targetAddr (?sel ! (n - 1)) (0 + (n - 1)))"
    "?sel \<noteq> [] \<longrightarrow> 0 < n"
    by blast
  have len: "length ?sub = n"
    using n(1) by (simp add: sub n(2))
  have nth: "?sel ! j = ks ! j" if "j < n" for j
    using that n(1) by simp
  have a: "prefix ?sub (map (submission targetAddr) ?sel)"
    unfolding sub n(2) by (rule map_mono_prefix) (rule take_is_prefix)
  have c: "\<forall>j. Suc j < n \<longrightarrow> goes_on (response_to w targetAddr (ks ! j) j)"
    using n(3) nth by auto
  have b: "\<forall>j<n. reports_unsealed (response_to w targetAddr (ks ! j) j) \<longrightarrow> n = Suc j"
  proof (intro allI impI)
    fix j assume j: "j < n" and u: "reports_unsealed (response_to w targetAddr (ks ! j) j)"
    show "n = Suc j"
    proof (rule ccontr)
      assume "n \<noteq> Suc j"
      with j have "Suc j < n" by simp
      with c have "goes_on (response_to w targetAddr (ks ! j) j)" by simp
      with u goes_on_not_unsealed show False by blast
    qed
  qed
  have d: "n < min (nat T) (length ks) \<longrightarrow>
      \<not> goes_on (response_to w targetAddr (ks ! (n - 1)) (n - 1))"
  proof
    assume lt: "n < min (nat T) (length ks)"
    then have "n < length ?sel" by simp
    moreover from lt have "?sel \<noteq> []" by auto
    ultimately have "0 < n" "\<not> goes_on (response_to w targetAddr (?sel ! (n - 1)) (n - 1))"
      using n(4,5) by auto
    then show "\<not> goes_on (response_to w targetAddr (ks ! (n - 1)) (n - 1))"
      using nth [of "n - 1"] by simp
  qed
  have e: "ks \<noteq> [] \<longrightarrow> ?sub \<noteq> []"
  proof
    assume "ks \<noteq> []"
    with assms(5) have "?sel \<noteq> []" by simp
    with n(5) len show "?sub \<noteq> []" by auto
  qed
  from c have c': "\<forall>j. Suc j < n \<longrightarrow>
      reports_sealed (response_to w targetAddr (ks ! j) j)
      \<and> goes_on (response_to w targetAddr (ks ! j) j)"
    using goes_on_reports_sealed by blast
  show ?thesis
    using a b c' d e unfolding len by blast
qed

theorem submissions_are_prefix_of_threshold_keys_witness:
  "get_status sealed_world (''A'' @ ''/v1/sys/seal-status'')
     = Inr (Obj [(''sealed'', Bool True), (''t'', Num 3), (''progress'', Num 0)])
   \<and> get_prop (Obj [(''sealed'', Bool True), (''t'', Num 3), (''progress'', Num 0)]) ''sealed''
     = Inr (Bool True)
   \<and> truthy (Bool True)
   \<and> get_prop (Obj [(''sealed'', Bool True), (''t'', Num 3), (''progress'', Num 0)]) ''t''
     = Inr (Num 3)
   \<and> (1::int) \<le> 3
   \<and> fst (getUnsealKeys sealed_world example_config)
     = Inr [Str ''k1'', Str ''k2'', Str ''k3'', Str ''k4'', Str ''k5'']
   \<and> prefix (submitted (snd (checkAndUnseal sealed_world example_config ''A'')))
       (map (submission ''A'')
          (take (nat 3) [Str ''k1'', Str ''k2'', Str ''k3'', Str ''k4'', Str ''k5'']))
   \<and> (2::nat) < length (submitted (snd (checkAndUnseal sealed_world example_config ''A'')))
   \<and> reports_unsealed (response_to sealed_world ''A''
        ([Str ''k1'', Str ''k2'', Str ''k3'', Str ''k4'', Str ''k5''] ! 2) 2)
   \<and> length (submitted (snd (checkAndUnseal sealed_world example_config ''A''))) = Suc 2"
proof -
  let ?data = "Obj [(''sealed'', Bool True), (''t'', Num 3), (''progress'', Num 0)]"
  let ?ks = "[Str ''k1'', Str ''k2'', Str ''k3'', Str ''k4'', Str ''k5'']"
  have probe: "get_status sealed_world (''A'' @ ''/v1/sys/seal-status'') = Inr ?data"
    by (simp add: sealed_world_def example_config_def five_keys_def)
  have field: "get_prop ?data ''sealed'' = Inr (Bool True)"
    by simp
  have sealed: "truthy (Bool True)"
    by simp
  have threshold: "get_prop ?data ''t'' = Inr (Num 3)"
    by simp
  have pos: "(1::int) \<le> 3"
    by simp
  have keys: "fst (getUnsealKeys sealed_world example_config) = Inr ?ks"
    by (simp add: sealed_world_def example_config_def five_keys_def run_defs comp_simps)
  have third: "(2::nat) < length (submitted (snd (checkAndUnseal sealed_world example_config ''A'')))"
    by (simp add: sealed_world_def example_config_def five_keys_def run_defs comp_simps)
  have unsealed: "reports_unsealed (response_to sealed_world ''A'' (?ks ! 2) 2)"
    by (simp add: reports_unsealed_def response_to_def sealed_world_def example_config_def five_keys_def)
  note claim = submissions_are_prefix_of_threshold_keys
    [OF probe field sealed threshold pos keys]
  from claim [THEN conjunct1]
  have pre: "prefix (submitted (snd (checkAndUnseal sealed_world example_config ''A'')))
       (map (submission ''A'') (take (nat 3) ?ks))" .
  from claim [THEN conjunct2, THEN conjunct1] third unsealed
  have stop: "length (submitted (snd (checkAndUnseal sealed_world example_config ''A''))) = Suc 2"
    by blast
  from probe field sealed threshold pos keys pre third unsealed stop show ?thesis
    by blast
qed

text \<open>
  C2 as the spec words it fails for the threshold 0: the probe of \<open>zero_threshold_world\<close>
  reports \<open>{sealed: true, t: 0}\<close>, the first \<open>min 0 5\<close> keys are none, and the run submits the
  first three keys (see C9).
\<close>

theorem zero_threshold_submits_three_keys:
  "get_status zero_threshold_world (''A'' @ ''/v1/sys/seal-status'')
     = Inr (Obj [(''sealed'', Bool True), (''t'', Num 0), (''progress'', Num 0)])
   \<and> get_prop (Obj [(''sealed'', Bool True), (''t'', Num 0), (''progress'', Num 0)]) ''sealed''
     = Inr (Bool True)
   \<and> truthy (Bool True)
   \<and> get_prop (Obj [(''sealed'', Bool True), (''t'', Num 0), (''progress'', Num 0)]) ''t''
     = Inr (Num 0)
   \<and> fst (getUnsealKeys zero_threshold_world example_config)
     = Inr [Str ''k1'', Str ''k2'', Str ''k3'', Str ''k4'', Str ''k5'']
   \<and> submitted (snd (checkAndUnseal zero_threshold_world example_config ''A''))
     = [submission ''A'' (Str ''k1''), submission ''A'' (Str ''k2''),
        submission ''A'' (Str ''k3'')]
   \<and> \<not> prefix (submitted (snd (checkAndUnseal zero_threshold_world example_config ''A'')))
         (map (submission ''A'')
            (take (min 0 (length [Str ''k1'', Str ''k2'', Str ''k3'', Str ''k4'', Str ''k5'']))
               [Str ''k1'', Str ''k2'', Str ''k3'', Str ''k4'', Str ''k5'']))"
  by (simp add: zero_threshold_world_def stuck_world_def sealed_world_def example_config_def five_keys_def run_defs comp_simps submission_def)

end
